theory Spec2Isabelle
  imports Complex_Main
begin

section \<open>The language level: JavaScript numbers and values\<close>

subsection \<open>Numbers\<close>

text \<open>
  A JavaScript \<open>number\<close> is an IEEE 754 double. \<open>Finite s m e\<close> stands for
  \<open>(-1)^s * m * 2^e\<close>; the values the operations below produce are canonical:
  \<open>m < 2^53\<close>, \<open>-1074 \<le> e \<le> 971\<close>, and \<open>2^52 \<le> m\<close> unless \<open>e = -1074\<close>
  (subnormal numbers and the two zeros \<open>Finite s 0 (-1074)\<close>).
\<close>

datatype number = NaN | Infinity bool | Finite bool nat int

definition pos_zero :: number where
  "pos_zero = Finite False 0 (-1074)"

fun is_zero :: "number \<Rightarrow> bool" where
  "is_zero (Finite s m e) = (m = 0)"
| "is_zero _ = False"

fun value_of :: "number \<Rightarrow> rat option" where
  "value_of (Finite s m e) =
     Some ((if s then - 1 else 1) * of_nat m * (if 0 \<le> e then 2 ^ nat e else 1 / 2 ^ nat (- e)))"
| "value_of _ = None"

text \<open>The doubles in canonical form, and the unit in the last place of one.\<close>

fun canonical :: "number \<Rightarrow> bool" where
  "canonical (Finite s m e) =
     (m < 2 ^ 53 \<and> - 1074 \<le> e \<and> e \<le> 971 \<and> (2 ^ 52 \<le> m \<or> e = - 1074))"
| "canonical x = True"

fun ulp :: "number \<Rightarrow> rat" where
  "ulp (Finite s m e) = 2 powi e"
| "ulp x = 0"

fun bitlen :: "nat \<Rightarrow> nat" where
  "bitlen n = (if n = 0 then 0 else Suc (bitlen (n div 2)))"

declare bitlen.simps [simp del]

text \<open>\<open>shl n k\<close> is \<open>n * 2^k\<close> for \<open>k \<ge> 0\<close> and \<open>n\<close> otherwise, so that
  \<open>shl n (- k) / shl d k\<close> is \<open>n / (d * 2^k)\<close> for every integer \<open>k\<close>.\<close>

definition shl :: "nat \<Rightarrow> int \<Rightarrow> nat" where
  "shl n k = n * 2 ^ nat k"

definition round_half_even :: "nat \<Rightarrow> nat \<Rightarrow> nat" where
  "round_half_even n d =
     (let q = n div d; r = n mod d
      in if 2 * r < d then q
         else if d < 2 * r then q + 1
         else if even q then q else q + 1)"

text \<open>
  Rounding the non-negative fraction \<open>n / d\<close> (\<open>d > 0\<close>) to the nearest double,
  ties to even, with sign \<open>s\<close>: the rounding every arithmetic operation and every
  conversion of a numeric literal ends with.
\<close>

definition to_double :: "bool \<Rightarrow> nat \<Rightarrow> nat \<Rightarrow> number" where
  "to_double s n d =
     (if n = 0 then Finite s 0 (-1074)
      else
        let e0 = int (bitlen n) - int (bitlen d);
            e = (if shl d e0 \<le> shl n (- e0) then e0 else e0 - 1);
            q = max (e - 52) (-1074);
            m = round_half_even (shl n (- q)) (shl d q);
            m' = (if m = 2 ^ 53 then 2 ^ 52 else m);
            q' = (if m = 2 ^ 53 then q + 1 else q)
        in if 971 < q' then Infinity s else Finite s m' q')"

text \<open>The operator \<open>*\<close> on numbers.\<close>

fun js_times :: "number \<Rightarrow> number \<Rightarrow> number" where
  "js_times NaN y = NaN"
| "js_times x NaN = NaN"
| "js_times (Infinity s) (Infinity t) = Infinity (s \<noteq> t)"
| "js_times (Infinity s) (Finite t n f) = (if n = 0 then NaN else Infinity (s \<noteq> t))"
| "js_times (Finite s m e) (Infinity t) = (if m = 0 then NaN else Infinity (s \<noteq> t))"
| "js_times (Finite s m e) (Finite t n f) =
     to_double (s \<noteq> t) (shl (m * n) (e + f)) (shl 1 (- (e + f)))"

subsection \<open>Strings to numbers\<close>

text \<open>
  \<open>Number(x)\<close> for \<open>x\<close> a string or \<open>null\<close>, as the handlers call it on the result
  of \<open>searchParams.get\<close>. A \<open>char\<close> stands for a code unit below 256; the white
  space among those is TAB, LF, VT, FF, CR, SP and NBSP.
\<close>

definition is_ws :: "char \<Rightarrow> bool" where
  "is_ws c = (c \<in> set [CHR 0x09, CHR 0x0A, CHR 0x0B, CHR 0x0C, CHR 0x0D, CHR 0x20, CHR 0xA0])"

definition trim :: "string \<Rightarrow> string" where
  "trim s = rev (dropWhile is_ws (rev (dropWhile is_ws s)))"

definition digit_of :: "char \<Rightarrow> nat option" where
  "digit_of c =
     (let n = (of_char c :: nat)
      in if 48 \<le> n \<and> n \<le> 57 then Some (n - 48)
         else if 97 \<le> n \<and> n \<le> 102 then Some (n - 87)
         else if 65 \<le> n \<and> n \<le> 70 then Some (n - 55)
         else None)"

definition is_digit :: "nat \<Rightarrow> char \<Rightarrow> bool" where
  "is_digit b c = (case digit_of c of Some d \<Rightarrow> d < b | None \<Rightarrow> False)"

fun digits_val :: "nat \<Rightarrow> nat \<Rightarrow> string \<Rightarrow> nat" where
  "digits_val b acc [] = acc"
| "digits_val b acc (c # cs) =
     digits_val b (acc * b + (case digit_of c of Some d \<Rightarrow> d | None \<Rightarrow> 0)) cs"

text \<open>\<open>0x\<close>, \<open>0o\<close> and \<open>0b\<close> literals: the base and the digits after the prefix.\<close>

fun radix_prefix :: "string \<Rightarrow> (nat \<times> string) option" where
  "radix_prefix (z # c # ds) =
     (if z \<noteq> CHR ''0'' then None
      else if c = CHR ''x'' \<or> c = CHR ''X'' then Some (16, ds)
      else if c = CHR ''o'' \<or> c = CHR ''O'' then Some (8, ds)
      else if c = CHR ''b'' \<or> c = CHR ''B'' then Some (2, ds)
      else None)"
| "radix_prefix _ = None"

fun strip_sign :: "string \<Rightarrow> bool \<times> string" where
  "strip_sign (c # cs) =
     (if c = CHR ''-'' then (True, cs) else if c = CHR ''+'' then (False, cs) else (False, c # cs))"
| "strip_sign [] = (False, [])"

text \<open>The exponent part after \<open>e\<close> or \<open>E\<close>: a sign and at least one digit.\<close>

definition parse_exponent :: "string \<Rightarrow> int option" where
  "parse_exponent r =
     (case strip_sign r of (neg, ds) \<Rightarrow>
        if ds \<noteq> [] \<and> list_all (is_digit 10) ds
        then Some ((if neg then - 1 else 1) * int (digits_val 10 0 ds))
        else None)"

text \<open>
  An unsigned decimal literal \<open>123\<close>, \<open>1.5\<close>, \<open>5.\<close>, \<open>.5\<close>, each with an optional
  exponent: the digits as one natural number and the decimal exponent to scale it by.
\<close>

definition parse_decimal :: "string \<Rightarrow> (nat \<times> int) option" where
  "parse_decimal u =
     (let ip = takeWhile (is_digit 10) u;
          r1 = dropWhile (is_digit 10) u;
          dot = (r1 \<noteq> [] \<and> hd r1 = CHR ''.'');
          fp = (if dot then takeWhile (is_digit 10) (tl r1) else []);
          r2 = (if dot then dropWhile (is_digit 10) (tl r1) else r1);
          ds = digits_val 10 0 (ip @ fp)
      in if ip = [] \<and> fp = [] then None
         else case r2 of
           [] \<Rightarrow> Some (ds, - int (length fp))
         | c # r \<Rightarrow>
             if c = CHR ''e'' \<or> c = CHR ''E''
             then (case parse_exponent r of
                     Some x \<Rightarrow> Some (ds, x - int (length fp))
                   | None \<Rightarrow> None)
             else None)"

definition StringToNumber :: "string \<Rightarrow> number" where
  "StringToNumber s =
     (let t = trim s
      in if t = [] then pos_zero
         else case radix_prefix t of
           Some (b, ds) \<Rightarrow>
             if ds \<noteq> [] \<and> list_all (is_digit b) ds then to_double False (digits_val b 0 ds) 1
             else NaN
         | None \<Rightarrow>
             (case strip_sign t of (neg, u) \<Rightarrow>
                if u = ''Infinity'' then Infinity neg
                else (case parse_decimal u of
                        None \<Rightarrow> NaN
                      | Some (ds, x) \<Rightarrow>
                          to_double neg (ds * 10 ^ nat x) (10 ^ nat (- x)))))"

text \<open>\<open>Number(null)\<close> is \<open>+0\<close>.\<close>

fun Number :: "string option \<Rightarrow> number" where
  "Number None = pos_zero"
| "Number (Some s) = StringToNumber s"

subsection \<open>Values\<close>

text \<open>
  The values a JSON document parses to, and \<open>undefined\<close>. An object is the list of
  its properties in order; a property is read at its first entry.
\<close>

datatype jsvalue =
    JUndefined
  | JNull
  | JBool bool
  | JNum number
  | JStr string
  | JArr "jsvalue list"
  | JObj "(string \<times> jsvalue) list"

text \<open>Truthiness, which \<open>!x\<close> negates.\<close>

fun ToBoolean :: "jsvalue \<Rightarrow> bool" where
  "ToBoolean JUndefined = False"
| "ToBoolean JNull = False"
| "ToBoolean (JBool b) = b"
| "ToBoolean (JNum n) = (n \<noteq> NaN \<and> \<not> is_zero n)"
| "ToBoolean (JStr s) = (s \<noteq> [])"
| "ToBoolean (JArr xs) = True"
| "ToBoolean (JObj kvs) = True"

text \<open>An object built by \<open>new\<close> is truthy, whatever its class.\<close>

definition ToBoolean_object :: "'a \<Rightarrow> bool" where
  "ToBoolean_object obj = True"

text \<open>A value of type \<open>string | null\<close> as a value.\<close>

fun of_nullable :: "string option \<Rightarrow> jsvalue" where
  "of_nullable None = JNull"
| "of_nullable (Some s) = JStr s"

text \<open>Reading a property of a value that is not an object gives \<open>undefined\<close>.\<close>

fun field :: "string \<Rightarrow> jsvalue \<Rightarrow> jsvalue" where
  "field k (JObj kvs) = (case map_of kvs k of Some v \<Rightarrow> v | None \<Rightarrow> JUndefined)"
| "field k v = JUndefined"

subsection \<open>Exceptions and effects\<close>

datatype exn =
    Error string
  | TypeError
  | SyntaxError
  | SdkError
  | Rejected exn

text \<open>
  What a handler does besides answering, in order: its calls into the SDK and to the
  ledger, the reading of the request body, its console output, and the entry into
  \<open>prepareTransaction\<close> with the arguments it is given.
\<close>

datatype 'k key_init = Raw jsvalue | Key 'k

datatype ('k, 'i, 'm, 't) event =
    ReqJson
  | NewPublicKey "'k key_init"
  | PrepareTransaction 'k 'k number
  | SystemProgram_transfer 'k 'k number
  | GetLatestBlockhash
  | CompileToV0Message 'k string "'i list"
  | NewVersionedTransaction 'm
  | Serialize 't
  | ConsoleLog
  | ConsoleError

text \<open>A computation extends the trace and returns a value or throws.\<close>

type_synonym ('a, 'e) js = "'e list \<Rightarrow> (exn + 'a) \<times> 'e list"

definition ret :: "'a \<Rightarrow> ('a, 'e) js" where
  "ret x = (\<lambda>t. (Inr x, t))"

definition throw :: "exn \<Rightarrow> ('a, 'e) js" where
  "throw e = (\<lambda>t. (Inl e, t))"

definition emit :: "'e \<Rightarrow> (unit, 'e) js" where
  "emit ev = (\<lambda>t. (Inr (), t @ [ev]))"

definition and_then :: "('a, 'e) js \<Rightarrow> ('a \<Rightarrow> ('b, 'e) js) \<Rightarrow> ('b, 'e) js" where
  "and_then m f = (\<lambda>t. case m t of (Inl e, t') \<Rightarrow> (Inl e, t') | (Inr x, t') \<Rightarrow> f x t')"

text \<open>A call into the SDK or the platform: it is recorded, and throws when the
  callee does (\<open>None\<close>).\<close>

definition call :: "'e \<Rightarrow> exn \<Rightarrow> 'a option \<Rightarrow> ('a, 'e) js" where
  "call ev e r = (\<lambda>t. (case r of None \<Rightarrow> Inl e | Some x \<Rightarrow> Inr x, t @ [ev]))"

text \<open>\<open>try { m } catch (error) { h error }\<close> where the handler returns.\<close>

definition try_catch :: "('a, 'e) js \<Rightarrow> (exn \<Rightarrow> 'e list \<Rightarrow> 'a \<times> 'e list) \<Rightarrow> 'e list \<Rightarrow> 'a \<times> 'e list" where
  "try_catch m h = (\<lambda>t. case m t of (Inl e, t') \<Rightarrow> h e t' | (Inr x, t') \<Rightarrow> (x, t'))"

section \<open>The platform: URLs, requests and responses\<close>

text \<open>
  The URL of a request, parsed: \<open>protocol\<close> ends with the colon, \<open>host\<close> holds the
  port if there is one, \<open>searchParams\<close> are the decoded query pairs in order.
\<close>

record url =
  protocol :: string
  host :: string
  pathname :: string
  searchParams :: "(string \<times> string) list"

text \<open>\<open>url.searchParams.get(name)\<close>: the first value of that name, or \<open>null\<close>.\<close>

definition get :: "url \<Rightarrow> string \<Rightarrow> string option" where
  "get u name = map_of (searchParams u) name"

text \<open>
  \<open>new URL(path, base).toString()\<close> for an absolute path without query: scheme and
  host of the base, the path replaced, query and fragment dropped.
\<close>

definition URL_toString :: "string \<Rightarrow> url \<Rightarrow> string" where
  "URL_toString path base = protocol base @ ''//'' @ host base @ path"

text \<open>A request: its URL, and what \<open>req.json()\<close> resolves with (\<open>None\<close> when the
  body is not JSON).\<close>

record request =
  url :: url
  json :: "jsvalue option"

datatype headers = ActionHeaders

text \<open>A response; \<open>body = None\<close> is the \<open>null\<close> body, \<open>Some v\<close> the JSON text of \<open>v\<close>.\<close>

record response =
  status :: nat
  headers :: headers
  body :: "jsvalue option"

definition createActionHeaders :: headers where
  "createActionHeaders = ActionHeaders"

text \<open>\<open>request.account\<close>: a \<open>TypeError\<close> on \<open>null\<close>.\<close>

fun get_account :: "jsvalue \<Rightarrow> exn + jsvalue" where
  "get_account JNull = Inl TypeError"
| "get_account JUndefined = Inl TypeError"
| "get_account v = Inr (field ''account'' v)"

text \<open>\<open>Buffer.from(bytes).toString("base64")\<close>.\<close>

definition b64 :: "nat \<Rightarrow> char" where
  "b64 n = ''ABCDEFGHIJKLMNOPQRSTUVWXYZabcdefghijklmnopqrstuvwxyz0123456789+/'' ! (n mod 64)"

fun base64_of :: "nat list \<Rightarrow> string" where
  "base64_of [] = []"
| "base64_of [a] = [b64 (a div 4), b64 (a mod 4 * 16), CHR ''='', CHR ''='']"
| "base64_of [a, b] =
     [b64 (a div 4), b64 (a mod 4 * 16 + b div 16), b64 (b mod 16 * 4), CHR ''='']"
| "base64_of (a # b # c # r) =
     b64 (a div 4) # b64 (a mod 4 * 16 + b div 16) # b64 (b mod 16 * 4 + c div 64) #
     b64 (c mod 64) # base64_of r"

definition base64 :: "nat list \<Rightarrow> string" where
  "base64 bytes = base64_of (map (\<lambda>x. x mod 256) bytes)"

section \<open>The SDK and the ledger\<close>

text \<open>
  The collaborators the handlers call, as parameters: the key constructor (given a
  value or a key), the instruction builder, \<open>new TransactionMessage({payerKey,
  recentBlockhash, instructions}).compileToV0Message()\<close> as one operation, the
  transaction container and its serialization. \<open>None\<close> is a call that throws.
\<close>

record ('k, 'i, 'm, 't) sdk =
  PublicKey :: "'k key_init \<Rightarrow> 'k option"
  transfer :: "'k \<Rightarrow> 'k \<Rightarrow> number \<Rightarrow> 'i option"
  compileToV0Message :: "'k \<Rightarrow> string \<Rightarrow> 'i list \<Rightarrow> 'm option"
  VersionedTransaction :: "'m \<Rightarrow> 't option"
  serialize :: "'t \<Rightarrow> nat list option"

text \<open>The connection: what \<open>getLatestBlockhash\<close> answers; \<open>None\<close> when the call fails.\<close>

record connection =
  getLatestBlockhash :: "string option"

text \<open>Modelled from the spec: the SDK's constant \<open>LAMPORTS_PER_SOL\<close>, the unit scale
  factor \<open>10^9\<close> of the ledger.\<close>

definition LAMPORTS_PER_SOL :: number where
  "LAMPORTS_PER_SOL = Finite False 8388608000000000 (-23)"

section \<open>The handlers\<close>

definition Response_new :: "jsvalue option \<Rightarrow> nat \<Rightarrow> response" where
  "Response_new b st = \<lparr>status = st, headers = createActionHeaders, body = b\<rparr>"

definition new_PublicKey :: "('k, 'i, 'm, 't) sdk \<Rightarrow> 'k key_init \<Rightarrow> ('k, ('k, 'i, 'm, 't) event) js" where
  "new_PublicKey sdk v = call (NewPublicKey v) SdkError (PublicKey sdk v)"

definition req_json :: "request \<Rightarrow> (jsvalue, ('k, 'i, 'm, 't) event) js" where
  "req_json req = call ReqJson SyntaxError (json req)"

definition lift :: "exn + 'a \<Rightarrow> ('a, 'e) js" where
  "lift r = (case r of Inl e \<Rightarrow> throw e | Inr x \<Rightarrow> ret x)"

subsection \<open>GET\<close>

text \<open>\<open>GET\<close> of route.ts; the text of \<open>GET\<close> in the second document of route.tsx and
  in part_000 is the same.\<close>

definition GET_ts :: "request \<Rightarrow> response" where
  "GET_ts req =
     Response_new (Some (JObj
       [(''type'', JStr ''action''),
        (''icon'', JStr (URL_toString ''/transfer-sol.png'' (url req))),
        (''label'', JStr ''Send SOL''),
        (''title'', JStr ''Send SOL with a Blink''),
        (''description'', JStr (''This Blink demonstrates how to send SOL on the Solana blockchain. It is a part of the official Blink Starter Guides by Dialect Labs.  '' @ [CHR 0x0A, CHR 0x0A] @ ''Learn how to build this Blink: https://dialect.to/docs/guides/transfer-sol'')),
        (''links'', JObj
          [(''actions'', JArr
            [JObj
              [(''type'', JStr ''transaction''),
               (''label'', JStr ''Send SOL''),
               (''href'', JStr ''/api/transfer-sol?receiver={receiver}&amount={amount}''),
               (''parameters'', JArr
                 [JObj
                    [(''type'', JStr ''text''),
                     (''label'', JStr ''Recipient Public Key''),
                     (''name'', JStr ''receiver''),
                     (''required'', JBool True)],
                  JObj
                    [(''type'', JStr ''number''),
                     (''label'', JStr ''Amount''),
                     (''name'', JStr ''amount''),
                     (''required'', JBool True)]])]])])])) 200"

definition GET_tsx2 :: "request \<Rightarrow> response" where
  "GET_tsx2 = GET_ts"

definition GET_part_000 :: "request \<Rightarrow> response" where
  "GET_part_000 = GET_ts"

text \<open>\<open>GET\<close> of the first document of route.tsx.\<close>

definition GET_tsx :: "request \<Rightarrow> response" where
  "GET_tsx req =
     Response_new (Some (JObj
       [(''type'', JStr ''action''),
        (''icon'', JStr ''http://localhost:3000/transfer-sol.png''),
        (''label'', JStr ''Send SOL''),
        (''title'', JStr ''Send SOL to a friend''),
        (''description'', JStr ''Send SOL to a friend using their public key.''),
        (''links'', JObj
          [(''actions'', JArr
            [JObj
              [(''type'', JStr ''transaction''),
               (''label'', JStr ''Send SOL''),
               (''href'', JStr ''/api/transfer-sol?receiver={receiver}&amount={amount}''),
               (''parameters'', JArr
                 [JObj
                    [(''type'', JStr ''text''),
                     (''label'', JStr ''Recipient Public Key''),
                     (''name'', JStr ''receiver''),
                     (''required'', JBool True)],
                  JObj
                    [(''type'', JStr ''number''),
                     (''label'', JStr ''Amount''),
                     (''name'', JStr ''amount''),
                     (''required'', JBool True)]])]])])])) 200"

definition OPTIONS :: response where
  "OPTIONS = Response_new None 200"

subsection \<open>prepareTransaction\<close>

text \<open>The same text in all four documents. The properties of the argument of
  \<open>SystemProgram.transfer\<close> are evaluated in order, the key copy first.\<close>

definition prepareTransaction ::
  "('k, 'i, 'm, 't) sdk \<Rightarrow> connection \<Rightarrow> 'k \<Rightarrow> 'k \<Rightarrow> number \<Rightarrow> ('t, ('k, 'i, 'm, 't) event) js" where
  "prepareTransaction sdk conn payer_key receiver_key amt =
     and_then (emit (PrepareTransaction payer_key receiver_key amt)) (\<lambda>_.
     and_then (new_PublicKey sdk (Key receiver_key)) (\<lambda>toPubkey.
     and_then (call (SystemProgram_transfer payer_key toPubkey (js_times amt LAMPORTS_PER_SOL)) SdkError
                 (transfer sdk payer_key toPubkey (js_times amt LAMPORTS_PER_SOL))) (\<lambda>instruction.
     and_then (call GetLatestBlockhash SdkError (getLatestBlockhash conn)) (\<lambda>blockhash.
     and_then (call (CompileToV0Message payer_key blockhash [instruction]) SdkError
                 (compileToV0Message sdk payer_key blockhash [instruction])) (\<lambda>message.
     call (NewVersionedTransaction message) SdkError (VersionedTransaction sdk message))))))"

subsection \<open>POST\<close>

definition internal_server_error :: response where
  "internal_server_error =
     Response_new (Some (JObj [(''error'', JStr ''Internal server error'')])) 500"

text \<open>The end of every \<open>POST\<close>: build the transaction, serialize it, answer 200.\<close>

definition respond_transaction ::
  "('k, 'i, 'm, 't) sdk \<Rightarrow> connection \<Rightarrow> 'k \<Rightarrow> 'k \<Rightarrow> number \<Rightarrow> (response, ('k, 'i, 'm, 't) event) js" where
  "respond_transaction sdk conn payer_key receiver_key amt =
     and_then (prepareTransaction sdk conn payer_key receiver_key amt) (\<lambda>transaction.
     and_then (call (Serialize transaction) SdkError (serialize sdk transaction)) (\<lambda>bytes.
     ret (Response_new (Some (JObj
       [(''type'', JStr ''transaction''),
        (''transaction'', JStr (base64 bytes))])) 200)))"

text \<open>The \<open>catch\<close> block of every \<open>POST\<close>.\<close>

definition catch_all :: "exn \<Rightarrow> ('k, 'i, 'm, 't) event list \<Rightarrow> response \<times> ('k, 'i, 'm, 't) event list" where
  "catch_all error t = (internal_server_error, t @ [ConsoleError])"

text \<open>\<open>POST\<close> of route.ts.\<close>

definition POST_ts ::
  "('k, 'i, 'm, 't) sdk \<Rightarrow> connection \<Rightarrow> request \<Rightarrow> response \<times> ('k, 'i, 'm, 't) event list" where
  "POST_ts sdk conn req =
     try_catch
       (and_then (new_PublicKey sdk (Raw (of_nullable (get (url req) ''receiver'')))) (\<lambda>receiver_key.
        let amt = Number (get (url req) ''amount'') in
        and_then (req_json req) (\<lambda>request.
        and_then (lift (get_account request)) (\<lambda>account.
        and_then (new_PublicKey sdk (Raw account)) (\<lambda>payer_key.
        respond_transaction sdk conn payer_key receiver_key amt)))))
       catch_all []"

text \<open>\<open>POST\<close> of route.tsx, the same text in both documents.\<close>

definition POST_tsx ::
  "('k, 'i, 'm, 't) sdk \<Rightarrow> connection \<Rightarrow> request \<Rightarrow> response \<times> ('k, 'i, 'm, 't) event list" where
  "POST_tsx sdk conn req =
     try_catch
       (let receiverString = get (url req) ''receiver'' in
        and_then (new_PublicKey sdk (Raw (of_nullable receiverString))) (\<lambda>receiver_key.
        let amt = Number (get (url req) ''amount'') in
        and_then (req_json req) (\<lambda>request.
        and_then (lift (get_account request)) (\<lambda>account.
        and_then (new_PublicKey sdk (Raw account)) (\<lambda>payer_key.
        and_then (emit ConsoleLog) (\<lambda>_.
        and_then (emit ConsoleLog) (\<lambda>_.
        if \<not> ToBoolean_object receiver_key \<or> \<not> ToBoolean (JNum amt)
        then ret (Response_new None 400)
        else respond_transaction sdk conn payer_key receiver_key amt)))))))
       catch_all []"

definition POST_tsx2 ::
  "('k, 'i, 'm, 't) sdk \<Rightarrow> connection \<Rightarrow> request \<Rightarrow> response \<times> ('k, 'i, 'm, 't) event list" where
  "POST_tsx2 = POST_tsx"

subsection \<open>The helper of part_000\<close>

record 'k TransferInstructionParams =
  receiver :: 'k
  amount :: number
  payer :: 'k

text \<open>The promise's \<open>try\<close> and \<open>catch\<close>: what is thrown is logged, and the promise
  rejects with a message made from it.\<close>

definition rejecting :: "('a, ('k, 'i, 'm, 't) event) js \<Rightarrow> ('a, ('k, 'i, 'm, 't) event) js" where
  "rejecting m = (\<lambda>t. case m t of (Inl e, t') \<Rightarrow> (Inl (Rejected e), t' @ [ConsoleError]) | (Inr x, t') \<Rightarrow> (Inr x, t'))"

definition verifyTransferInstruction ::
  "('k, 'i, 'm, 't) sdk \<Rightarrow> request \<Rightarrow> ('k TransferInstructionParams, ('k, 'i, 'm, 't) event) js" where
  "verifyTransferInstruction sdk req =
     rejecting
       (and_then (req_json req) (\<lambda>request.
        let receiverString = get (url req) ''receiver'' in
        if \<not> ToBoolean (of_nullable receiverString)
        then throw (Error ''Receiver address is required'')
        else
        let amountString = get (url req) ''amount'' in
        if \<not> ToBoolean (of_nullable amountString)
        then throw (Error ''Amount is required'')
        else
        and_then (lift (get_account request)) (\<lambda>account.
        if \<not> ToBoolean account
        then throw (Error ''Payer account is required'')
        else
        and_then (new_PublicKey sdk (Raw (of_nullable receiverString))) (\<lambda>receiver_key.
        let amt = Number amountString in
        and_then (new_PublicKey sdk (Raw account)) (\<lambda>payer_key.
        ret \<lparr>receiver = receiver_key, amount = amt, payer = payer_key\<rparr>)))))"

definition POST_part_000 ::
  "('k, 'i, 'm, 't) sdk \<Rightarrow> connection \<Rightarrow> request \<Rightarrow> response \<times> ('k, 'i, 'm, 't) event list" where
  "POST_part_000 sdk conn req =
     try_catch
       (and_then (verifyTransferInstruction sdk req) (\<lambda>params.
        respond_transaction sdk conn (payer params) (receiver params) (amount params)))
       catch_all []"

section \<open>Notions the properties are stated with\<close>

text \<open>\<open>l\<close> is exactly \<open>a\<close> times \<open>10^9\<close>, as rational numbers.\<close>

definition scaled_exactly :: "number \<Rightarrow> number \<Rightarrow> bool" where
  "scaled_exactly a l =
     (case value_of a of
        None \<Rightarrow> False
      | Some x \<Rightarrow> (case value_of l of None \<Rightarrow> False | Some y \<Rightarrow> y = x * 10 ^ 9))"

text \<open>What a trace holds: the entries into \<open>prepareTransaction\<close>, the instructions
  asked of the builder, and the fee payers and instruction lists of the compiled messages.\<close>

fun prepared :: "('k, 'i, 'm, 't) event list \<Rightarrow> ('k \<times> 'k \<times> number) list" where
  "prepared [] = []"
| "prepared (PrepareTransaction p r a # evs) = (p, r, a) # prepared evs"
| "prepared (ev # evs) = prepared evs"

fun transfers :: "('k, 'i, 'm, 't) event list \<Rightarrow> ('k \<times> 'k \<times> number) list" where
  "transfers [] = []"
| "transfers (SystemProgram_transfer f t l # evs) = (f, t, l) # transfers evs"
| "transfers (ev # evs) = transfers evs"

fun fee_payers :: "('k, 'i, 'm, 't) event list \<Rightarrow> ('k \<times> 'i list) list" where
  "fee_payers [] = []"
| "fee_payers (CompileToV0Message p b is # evs) = (p, is) # fee_payers evs"
| "fee_payers (ev # evs) = fee_payers evs"

section \<open>Stand-ins for the SDK, to run the handlers on\<close>

text \<open>
  Keys are their base-58 text, accepted at 32 to 44 characters; an instruction, a
  message and a transaction are the tuples of what they were built from.
\<close>

type_synonym demo_instruction = "string \<times> string \<times> number"
type_synonym demo_message = "string \<times> string \<times> demo_instruction list"
type_synonym demo_sdk = "(string, demo_instruction, demo_message, demo_message) sdk"
type_synonym demo_event = "(string, demo_instruction, demo_message, demo_message) event"

definition base58 :: string where
  "base58 = ''123456789ABCDEFGHJKLMNPQRSTUVWXYZabcdefghijkmnopqrstuvwxyz''"

fun demo_PublicKey :: "string key_init \<Rightarrow> string option" where
  "demo_PublicKey (Key k) = Some k"
| "demo_PublicKey (Raw (JStr s)) =
     (if 32 \<le> length s \<and> length s \<le> 44 \<and> list_all (\<lambda>c. c \<in> set base58) s then Some s else None)"
| "demo_PublicKey (Raw v) = None"

text \<open>A whole number of lamports that fits 64 bits.\<close>

fun whole_u64 :: "number \<Rightarrow> bool" where
  "whole_u64 (Finite s m e) =
     (m = 0 \<or> (\<not> s \<and> (if 0 \<le> e then m * 2 ^ nat e < 2 ^ 64
                        else m mod 2 ^ nat (- e) = 0 \<and> m div 2 ^ nat (- e) < 2 ^ 64)))"
| "whole_u64 x = False"

fun demo_serialize :: "demo_message \<Rightarrow> nat list option" where
  "demo_serialize (p, b, is) = Some (map of_char b)"

text \<open>An SDK whose instruction builder throws unless the lamports are a whole number
  that fits 64 bits.\<close>

definition strict_sdk :: demo_sdk where
  "strict_sdk =
     \<lparr>PublicKey = demo_PublicKey,
      transfer = (\<lambda>f t l. if whole_u64 l then Some (f, t, l) else None),
      compileToV0Message = (\<lambda>p b is. Some (p, b, is)),
      VersionedTransaction = Some,
      serialize = demo_serialize\<rparr>"

definition devnet :: connection where
  "devnet = \<lparr>getLatestBlockhash = Some ''EkSnNWid2cvwEVnVx9aBqawn''\<rparr>"

definition offline :: connection where
  "offline = \<lparr>getLatestBlockhash = None\<rparr>"

definition alice :: string where
  "alice = ''4Nd1mBQtrMJVYVfKf2PJy9NZUZdTAsp7D4xWLs4gDB4T''"

definition bob :: string where
  "bob = ''11111111111111111111111111111111''"

definition post_request :: "(string \<times> string) list \<Rightarrow> jsvalue \<Rightarrow> request" where
  "post_request params doc =
     \<lparr>url = \<lparr>protocol = ''https:'', host = ''blinks.example.com'',
              pathname = ''/api/transfer-sol'', searchParams = params\<rparr>,
      json = Some doc\<rparr>"

definition account_of :: "string \<Rightarrow> jsvalue" where
  "account_of k = JObj [(''account'', JStr k)]"

definition transfer_request :: "string \<Rightarrow> request" where
  "transfer_request amt = post_request [(''receiver'', bob), (''amount'', amt)] (account_of alice)"

definition no_amount_request :: request where
  "no_amount_request = post_request [(''receiver'', bob)] (account_of alice)"

definition metadata_request :: request where
  "metadata_request =
     \<lparr>url = \<lparr>protocol = ''https:'', host = ''blinks.example.com'',
              pathname = ''/api/transfer-sol'', searchParams = []\<rparr>,
      json = None\<rparr>"

section \<open>Evaluation\<close>

lemma bitlen_0: "bitlen 0 = 0"
  by (simp add: bitlen.simps)

lemma bitlen_1: "bitlen (Suc 0) = 1"
  by (simp add: bitlen.simps)

lemma bitlen_numeral: "bitlen (numeral k) = Suc (bitlen (numeral k div 2))"
  by (subst bitlen.simps) simp

lemmas round_eval =
  to_double_def shl_def round_half_even_def bitlen_0 bitlen_1 bitlen_numeral
  LAMPORTS_PER_SOL_def Let_def

lemma digit_of_chars:
  "digit_of CHR ''0'' = Some 0" "digit_of CHR ''1'' = Some 1" "digit_of CHR ''2'' = Some 2"
  "digit_of CHR ''3'' = Some 3" "digit_of CHR ''4'' = Some 4" "digit_of CHR ''5'' = Some 5"
  "digit_of CHR ''6'' = Some 6" "digit_of CHR ''7'' = Some 7" "digit_of CHR ''8'' = Some 8"
  "digit_of CHR ''9'' = Some 9" "digit_of CHR ''.'' = None" "digit_of CHR ''-'' = None"
  "digit_of CHR ''a'' = Some 10" "digit_of CHR ''b'' = Some 11" "digit_of CHR ''c'' = Some 12"
  "digit_of CHR ''x'' = None"
  by (simp_all add: digit_of_def)

lemmas parse_eval =
  StringToNumber_def trim_def is_ws_def parse_decimal_def parse_exponent_def is_digit_def
  digit_of_chars pos_zero_def Let_def

lemma StringToNumber_0: "StringToNumber ''0'' = Finite False 0 (- 1074)"
  by (simp add: parse_eval) (simp add: round_eval)

lemma StringToNumber_abc: "StringToNumber ''abc'' = NaN"
  by (simp add: parse_eval)

lemma StringToNumber_minus_1: "StringToNumber ''-1'' = Finite True 4503599627370496 (- 52)"
  by (simp add: parse_eval) (simp add: round_eval)

lemma StringToNumber_1: "StringToNumber ''1'' = Finite False 4503599627370496 (- 52)"
  by (simp add: parse_eval) (simp add: round_eval)

lemma StringToNumber_1_5: "StringToNumber ''1.5'' = Finite False 6755399441055744 (- 52)"
  by (simp add: parse_eval) (simp add: round_eval)

lemma StringToNumber_8_2: "StringToNumber ''8.2'' = Finite False 4616189618054758 (- 49)"
  by (simp add: parse_eval) (simp add: round_eval)

lemma StringToNumber_2_53:
  "StringToNumber ''9007199.254740993'' = Finite False 4835703278458517 (- 29)"
  by (simp add: parse_eval) (simp add: round_eval)

lemma StringToNumber_Infinity: "StringToNumber ''Infinity'' = Infinity False"
  by (simp add: parse_eval)

lemma times_0: "js_times (Finite False 0 (- 1074)) LAMPORTS_PER_SOL = Finite False 0 (- 1074)"
  by (simp add: round_eval)

lemma times_minus_1:
  "js_times (Finite True 4503599627370496 (- 52)) LAMPORTS_PER_SOL = Finite True 8388608000000000 (- 23)"
  by (simp add: round_eval)

lemma times_1:
  "js_times (Finite False 4503599627370496 (- 52)) LAMPORTS_PER_SOL = Finite False 8388608000000000 (- 23)"
  by (simp add: round_eval)

lemma times_1_5:
  "js_times (Finite False 6755399441055744 (- 52)) LAMPORTS_PER_SOL = Finite False 6291456000000000 (- 22)"
  by (simp add: round_eval)

lemma times_8_2:
  "js_times (Finite False 4616189618054758 (- 49)) LAMPORTS_PER_SOL = Finite False 8598323199999999 (- 20)"
  by (simp add: round_eval)

lemma times_2_53:
  "js_times (Finite False 4835703278458517 (- 29)) LAMPORTS_PER_SOL = Finite False 4503599627370496 1"
  by (simp add: round_eval)

lemmas number_eval =
  StringToNumber_0 StringToNumber_abc StringToNumber_minus_1 StringToNumber_1 StringToNumber_1_5
  StringToNumber_8_2 StringToNumber_2_53 StringToNumber_Infinity times_0 times_minus_1 times_1
  times_1_5 times_8_2 times_2_53

lemma alice_key: "demo_PublicKey (Raw (JStr alice)) = Some alice"
  by (simp add: alice_def base58_def)

lemma bob_key: "demo_PublicKey (Raw (JStr bob)) = Some bob"
  by (simp add: bob_def base58_def)

lemma copy_key: "demo_PublicKey (Key k) = Some k"
  by simp

lemma null_key: "demo_PublicKey (Raw JNull) = None"
  by simp

lemma short_key: "demo_PublicKey (Raw (JStr ''xyz'')) = None"
  by simp

lemma names_nonempty: "alice \<noteq> []" "bob \<noteq> []"
  by (simp_all add: alice_def bob_def)

declare demo_PublicKey.simps [simp del]

lemmas js_defs =
  and_then_def ret_def throw_def emit_def call_def try_catch_def lift_def
  new_PublicKey_def req_json_def rejecting_def catch_all_def Let_def

lemmas run_defs =
  js_defs transfer_request_def no_amount_request_def post_request_def account_of_def get_def
  strict_sdk_def devnet_def offline_def alice_key bob_key copy_key null_key short_key
  names_nonempty ToBoolean_object_def respond_transaction_def prepareTransaction_def
  verifyTransferInstruction_def pos_zero_def number_eval base64_def b64_def

section \<open>Rounding\<close>

lemma value_of_powi:
  "value_of (Finite s m e) = Some ((if s then - 1 else 1) * of_nat m * 2 powi e)"
  by (simp add: power_int_def field_simps)

lemma shl_ratio:
  "(of_nat (shl n (- q)) :: rat) / of_nat (shl d q) = of_nat n / of_nat d / 2 powi q"
proof (cases "0 \<le> q")
  case True
  then show ?thesis
    by (simp add: shl_def power_int_def)
next
  case False
  then show ?thesis
    by (simp add: shl_def power_int_def field_simps)
qed

lemma shl_ratio_neg:
  "(of_nat (shl n q) :: rat) / of_nat (shl d (- q)) = of_nat n / of_nat d * 2 powi q"
proof -
  have "(of_nat (shl n (- (- q))) :: rat) / of_nat (shl d (- q)) = of_nat n / of_nat d / 2 powi (- q)"
    by (rule shl_ratio)
  then show ?thesis
    by (simp add: power_int_minus divide_inverse)
qed

lemma round_half_even_error:
  assumes "0 < D"
  shows "\<bar>(of_nat (round_half_even N D) :: rat) - of_nat N / of_nat D\<bar> \<le> 1 / 2"
proof -
  define q r where "q = N div D" and "r = N mod D"
  have N: "N = q * D + r" and r: "r < D"
    using assms by (simp_all add: q_def r_def)
  have frac: "(of_nat N :: rat) / of_nat D = of_nat q + of_nat r / of_nat D"
    using assms by (simp add: N field_simps)
  have D: "(0 :: rat) < of_nat D"
    using assms by simp
  consider "2 * r < D" | "D < 2 * r" | "2 * r = D"
    by linarith
  then show ?thesis
  proof cases
    case 1
    then have "(of_nat r :: rat) / of_nat D \<le> 1 / 2"
      using D by (simp add: field_simps)
    with 1 show ?thesis
      using D by (simp add: round_half_even_def Let_def frac q_def [symmetric] r_def [symmetric])
  next
    case 2
    then have "1 - (of_nat r :: rat) / of_nat D \<le> 1 / 2"
      using D by (simp add: field_simps)
    moreover have "(of_nat r :: rat) / of_nat D \<le> 1"
      using r D by (simp add: field_simps)
    ultimately show ?thesis
      using 2 D by (simp add: round_half_even_def Let_def frac q_def [symmetric] r_def [symmetric] abs_if)
  next
    case 3
    then have "(of_nat r :: rat) / of_nat D = 1 / 2"
      using D by (simp add: field_simps)
    with 3 show ?thesis
      by (simp add: round_half_even_def Let_def frac q_def [symmetric] r_def [symmetric])
  qed
qed


lemma shl_pos: "0 < d \<Longrightarrow> 0 < shl d q"
  by (simp add: shl_def)

lemma to_double_error:
  assumes d: "0 < d" and res: "to_double s n d = Finite s' m e"
  shows "s' = s \<and> \<bar>(of_nat m :: rat) * 2 powi e - of_nat n / of_nat d\<bar> \<le> 2 powi e / 2"
proof (cases "n = 0")
  case True
  with res show ?thesis
    by (simp add: to_double_def)
next
  case False
  define e0 where "e0 = int (bitlen n) - int (bitlen d)"
  define ee where "ee = (if shl d e0 \<le> shl n (- e0) then e0 else e0 - 1)"
  define q where "q = max (ee - 52) (- 1074)"
  define m0 where "m0 = round_half_even (shl n (- q)) (shl d q)"
  have unfolded: "to_double s n d =
      (if 971 < (if m0 = 2 ^ 53 then q + 1 else q) then Infinity s
       else Finite s (if m0 = 2 ^ 53 then 2 ^ 52 else m0) (if m0 = 2 ^ 53 then q + 1 else q))"
    unfolding to_double_def Let_def e0_def ee_def q_def m0_def
    by (simp only: False if_False)
  have pos: "(0 :: rat) < 2 powi q"
    by simp
  have half: "\<bar>(of_nat m0 :: rat) - of_nat n / of_nat d / 2 powi q\<bar> \<le> 1 / 2"
    using round_half_even_error [OF shl_pos [OF d], of "shl n (- q)" q]
    by (simp add: m0_def shl_ratio)
  have scale: "\<bar>a - x / P\<bar> \<le> 1 / 2 \<Longrightarrow> 0 < P \<Longrightarrow> \<bar>a * P - x\<bar> \<le> P / 2" for a x P :: rat
  proof -
    assume a: "\<bar>a - x / P\<bar> \<le> 1 / 2" and P: "0 < P"
    have "a * P - x = (a - x / P) * P"
      using P by (simp add: field_simps)
    then have "\<bar>a * P - x\<bar> = \<bar>a - x / P\<bar> * P"
      using P by (simp add: abs_mult)
    also have "\<dots> \<le> 1 / 2 * P"
      using a P by (rule mult_right_mono [OF _ less_imp_le])
    finally show ?thesis
      by simp
  qed
  have err: "\<bar>(of_nat m0 :: rat) * 2 powi q - of_nat n / of_nat d\<bar> \<le> 2 powi q / 2"
    by (rule scale [OF half pos])
  show ?thesis
  proof (cases "m0 = 2 ^ 53")
    case True
    with res unfolded have eq: "s' = s" "m = 2 ^ 52" "e = q + 1"
      by (simp_all split: if_splits)
    have "(of_nat m :: rat) * 2 powi e = of_nat m0 * 2 powi q"
      by (simp add: eq True power_int_add)
    moreover have "(2 :: rat) powi q / 2 \<le> 2 powi e / 2"
      by (simp add: eq power_int_add)
    ultimately show ?thesis
      using err eq by simp
  next
    case False
    with res unfolded have "s' = s" "m = m0" "e = q"
      by (simp_all split: if_splits)
    with err show ?thesis
      by simp
  qed
qed


lemma bitlen_bounds: "0 < n \<Longrightarrow> 2 ^ (bitlen n - 1) \<le> n \<and> n < 2 ^ bitlen n"
proof (induction n rule: bitlen.induct)
  case (1 n)
  show ?case
  proof (cases "n div 2 = 0")
    case True
    with "1.prems" have "n = 1"
      by (cases n) auto
    then show ?thesis
      by (simp add: bitlen.simps)
  next
    case False
    then have pos: "0 < n div 2"
      by simp
    from "1.prems" have n: "n \<noteq> 0"
      by simp
    from "1.IH" [OF n pos] have lo: "2 ^ (bitlen (n div 2) - 1) \<le> n div 2"
      and hi: "n div 2 < 2 ^ bitlen (n div 2)"
      by simp_all
    have len: "bitlen n = Suc (bitlen (n div 2))"
      using n by (subst bitlen.simps) simp
    have bl: "0 < bitlen (n div 2)"
      using pos by (subst bitlen.simps) simp
    then have "(2::nat) ^ bitlen (n div 2) = 2 * 2 ^ (bitlen (n div 2) - 1)"
      by (cases "bitlen (n div 2)") simp_all
    with lo have "2 ^ bitlen (n div 2) \<le> n"
      by linarith
    moreover from hi have "n < 2 * 2 ^ bitlen (n div 2)"
      by linarith
    ultimately show ?thesis
      by (simp add: len)
  qed
qed

lemma round_half_even_ge: "0 < D \<Longrightarrow> K * D \<le> N \<Longrightarrow> K \<le> round_half_even N D"
proof -
  assume D: "0 < D" and "K * D \<le> N"
  then have "K \<le> N div D"
    by (simp add: less_eq_div_iff_mult_less_eq)
  then show ?thesis
    by (simp add: round_half_even_def Let_def)
qed

lemma round_half_even_le: "0 < D \<Longrightarrow> N < K * D \<Longrightarrow> round_half_even N D \<le> K"
proof -
  assume D: "0 < D" and "N < K * D"
  then have "N div D < K"
    by (simp add: div_less_iff_less_mult)
  then show ?thesis
    by (simp add: round_half_even_def Let_def)
qed


lemma pow_quotients:
  "0 < b \<Longrightarrow> (2 :: rat) ^ a / 2 ^ (b - 1) = 2 powi (int a - int b + 1)"
  "0 < a \<Longrightarrow> (2 :: rat) ^ (a - 1) / 2 ^ b = 2 powi (int a - int b - 1)"
proof -
  assume b: "0 < b"
  have "(2 :: rat) ^ a / 2 ^ (b - 1) = 2 powi int a / 2 powi int (b - 1)"
    by simp
  also have "\<dots> = 2 powi (int a - int (b - 1))"
    by (simp add: power_int_diff)
  also have "int a - int (b - 1) = int a - int b + 1"
    using b by (simp add: of_nat_diff)
  finally show "(2 :: rat) ^ a / 2 ^ (b - 1) = 2 powi (int a - int b + 1)" .
next
  assume a: "0 < a"
  have "(2 :: rat) ^ (a - 1) / 2 ^ b = 2 powi int (a - 1) / 2 powi int b"
    by simp
  also have "\<dots> = 2 powi (int (a - 1) - int b)"
    by (simp add: power_int_diff)
  also have "int (a - 1) - int b = int a - int b - 1"
    using a by (simp add: of_nat_diff)
  finally show "(2 :: rat) ^ (a - 1) / 2 ^ b = 2 powi (int a - int b - 1)" .
qed

lemma shl_le_iff:
  assumes "0 < d"
  shows "(shl d q \<le> shl n (- q)) = ((2 :: rat) powi q \<le> of_nat n / of_nat d)"
proof -
  define x where "x = (of_nat n :: rat) / of_nat d"
  have D: "(0 :: rat) < of_nat (shl d q)"
    using assms by (simp add: shl_def)
  have P: "(0 :: rat) < 2 powi q"
    by simp
  have "(shl d q \<le> shl n (- q)) = ((of_nat (shl d q) :: rat) \<le> of_nat (shl n (- q)))"
    by simp
  also have "\<dots> = (1 \<le> (of_nat (shl n (- q)) :: rat) / of_nat (shl d q))"
    using D by (simp add: field_simps)
  also have "\<dots> = (1 \<le> x / 2 powi q)"
    by (simp only: shl_ratio x_def)
  also have "\<dots> = ((2 :: rat) powi q \<le> x)"
    using P by (simp add: pos_le_divide_eq)
  finally show ?thesis
    by (simp only: x_def)
qed

lemma shl_less_iff:
  assumes "0 < d"
  shows "(shl n (- q) < K * shl d q) = ((of_nat n :: rat) / of_nat d < of_nat K * 2 powi q)"
proof -
  define x where "x = (of_nat n :: rat) / of_nat d"
  have D: "(0 :: rat) < of_nat (shl d q)"
    using assms by (simp add: shl_def)
  have P: "(0 :: rat) < 2 powi q"
    by simp
  have "(shl n (- q) < K * shl d q) = ((of_nat (shl n (- q)) :: rat) < of_nat K * of_nat (shl d q))"
    by (metis of_nat_less_iff of_nat_mult)
  also have "\<dots> = ((of_nat (shl n (- q)) :: rat) / of_nat (shl d q) < of_nat K)"
    using D by (simp add: pos_divide_less_eq)
  also have "\<dots> = (x / 2 powi q < of_nat K)"
    by (simp only: shl_ratio x_def)
  also have "\<dots> = (x < of_nat K * 2 powi q)"
    using P by (simp add: pos_divide_less_eq)
  finally show ?thesis
    by (simp only: x_def)
qed

lemma shl_ge_iff:
  assumes "0 < d"
  shows "(K * shl d q \<le> shl n (- q)) = (of_nat K * 2 powi q \<le> (of_nat n :: rat) / of_nat d)"
  using shl_less_iff [OF assms, of n q K] by (simp add: not_less [symmetric])

text \<open>The exponent \<open>to_double\<close> computes is that of the leading bit.\<close>

lemma leading_bit:
  assumes n: "0 < n" and d: "0 < d"
  defines "e0 \<equiv> int (bitlen n) - int (bitlen d)"
  defines "ee \<equiv> (if shl d e0 \<le> shl n (- e0) then e0 else e0 - 1)"
  shows "(2 :: rat) powi ee \<le> of_nat n / of_nat d \<and> (of_nat n :: rat) / of_nat d < 2 powi (ee + 1)"
proof -
  let ?x = "(of_nat n :: rat) / of_nat d"
  from bitlen_bounds [OF n] have n1: "(2 :: rat) ^ (bitlen n - 1) \<le> of_nat n"
    and n2: "(of_nat n :: rat) < 2 ^ bitlen n"
    by (metis of_nat_le_iff of_nat_numeral of_nat_power, metis of_nat_less_iff of_nat_numeral of_nat_power)
  from bitlen_bounds [OF d] have d1: "(2 :: rat) ^ (bitlen d - 1) \<le> of_nat d"
    and d2: "(of_nat d :: rat) < 2 ^ bitlen d"
    by (metis of_nat_le_iff of_nat_numeral of_nat_power, metis of_nat_less_iff of_nat_numeral of_nat_power)
  have bn: "0 < bitlen n" and bd: "0 < bitlen d"
    using n d by (subst bitlen.simps, simp)+
  have dpos: "(0 :: rat) < of_nat d"
    using d by simp
  have "?x < 2 ^ bitlen n / 2 ^ (bitlen d - 1)"
    using n2 d1 dpos by (intro frac_less) simp_all
  also have "\<dots> = 2 powi (e0 + 1)"
    by (simp only: pow_quotients(1) [OF bd] e0_def)
  finally have hi: "?x < 2 powi (e0 + 1)" .
  have "(2 :: rat) powi (e0 - 1) = 2 ^ (bitlen n - 1) / 2 ^ bitlen d"
    by (simp only: pow_quotients(2) [OF bn] e0_def)
  also have "\<dots> < ?x"
    using n1 d2 dpos by (intro frac_less2) simp_all
  finally have lo: "2 powi (e0 - 1) < ?x" .
  show ?thesis
  proof (cases "shl d e0 \<le> shl n (- e0)")
    case True
    then have "ee = e0"
      by (simp add: ee_def)
    with True hi show ?thesis
      by (simp add: shl_le_iff [OF d])
  next
    case False
    then have "ee = e0 - 1"
      by (simp add: ee_def)
    with False lo show ?thesis
      by (simp add: shl_le_iff [OF d] not_le)
  qed
qed


lemma to_double_shape:
  assumes d: "0 < d" and res: "to_double s n d = Finite s' m e"
  shows "m < 2 ^ 53 \<and> - 1074 \<le> e \<and> e \<le> 971 \<and> (2 ^ 52 \<le> m \<or> e = - 1074)"
proof (cases "n = 0")
  case True
  with res show ?thesis
    by (simp add: to_double_def)
next
  case False
  then have n: "0 < n"
    by simp
  define x where "x = (of_nat n :: rat) / of_nat d"
  define e0 where "e0 = int (bitlen n) - int (bitlen d)"
  define ee where "ee = (if shl d e0 \<le> shl n (- e0) then e0 else e0 - 1)"
  define q where "q = max (ee - 52) (- 1074)"
  define m0 where "m0 = round_half_even (shl n (- q)) (shl d q)"
  have unfolded: "to_double s n d =
      (if 971 < (if m0 = 2 ^ 53 then q + 1 else q) then Infinity s
       else Finite s (if m0 = 2 ^ 53 then 2 ^ 52 else m0) (if m0 = 2 ^ 53 then q + 1 else q))"
    unfolding to_double_def Let_def e0_def ee_def q_def m0_def
    by (simp only: False if_False)
  have "2 powi ee \<le> x \<and> x < 2 powi (ee + 1)"
    unfolding x_def ee_def e0_def by (rule leading_bit [OF n d])
  then have lo: "2 powi ee \<le> x" and hi: "x < 2 powi (ee + 1)"
    by simp_all
  have D: "0 < shl d q"
    by (rule shl_pos [OF d])
  have "(2 :: rat) powi (ee + 1) \<le> 2 powi (q + 53)"
    by (rule power_int_increasing) (simp_all add: q_def)
  with hi have "x < of_nat (2 ^ 53) * 2 powi q"
    by (simp add: power_int_add)
  then have "shl n (- q) < 2 ^ 53 * shl d q"
    by (simp only: shl_less_iff [OF d] x_def)
  then have m0_le: "m0 \<le> 2 ^ 53"
    unfolding m0_def by (rule round_half_even_le [OF D])
  have m0_ge: "2 ^ 52 \<le> m0" if "q = ee - 52"
  proof -
    from lo that have "of_nat (2 ^ 52) * 2 powi q \<le> x"
      by (simp add: power_int_diff)
    then have "2 ^ 52 * shl d q \<le> shl n (- q)"
      by (simp only: shl_ge_iff [OF d] x_def)
    then show ?thesis
      unfolding m0_def by (rule round_half_even_ge [OF D])
  qed
  have q_cases: "q = ee - 52 \<or> q = - 1074" and q_ge: "- 1074 \<le> q"
    by (auto simp: q_def max_def)
  show ?thesis
  proof (cases "m0 = 2 ^ 53")
    case True
    with res unfolded have "m = 2 ^ 52" "e = q + 1" "e \<le> 971"
      by (simp_all split: if_splits)
    with q_ge show ?thesis
      by simp
  next
    case False
    with res unfolded have "m = m0" "e = q" "e \<le> 971"
      by (simp_all split: if_splits)
    with False m0_le m0_ge q_cases q_ge show ?thesis
      by auto
  qed
qed


text \<open>Every number the conversions produce is canonical.\<close>

lemma to_double_canonical: "0 < d \<Longrightarrow> canonical (to_double s n d)"
proof (cases "to_double s n d")
  case (Finite s' m e)
  assume "0 < d"
  from to_double_shape [OF this Finite] Finite show ?thesis
    by simp
qed simp_all

lemma Number_canonical: "canonical (Number x)"
proof (cases x)
  case None
  then show ?thesis
    by (simp add: pos_zero_def)
next
  case (Some s)
  then show ?thesis
    by (simp add: StringToNumber_def pos_zero_def Let_def to_double_canonical
        split: option.splits prod.splits)
qed

lemma shl_one_pos: "0 < shl 1 q"
  by (simp add: shl_def)

text \<open>The product of two numbers is a canonical double, and when it and the factors
  are finite it lies within half a unit in its last place of the exact product.\<close>

lemma js_times_canonical: "canonical (js_times a b)"
proof (cases a; cases b)
  fix s m e t n f
  assume ab: "a = Finite s m e" "b = Finite t n f"
  show ?thesis
  proof (cases "js_times a b")
    case (Finite u k g)
    with ab have "to_double (s \<noteq> t) (shl (m * n) (e + f)) (shl 1 (- (e + f))) = Finite u k g"
      by simp
    from to_double_shape [OF shl_one_pos this] Finite show ?thesis
      by simp
  qed simp_all
qed simp_all

lemma js_times_rounds:
  assumes "value_of a = Some x" and "value_of b = Some y" and "value_of (js_times a b) = Some z"
  shows "\<bar>z - x * y\<bar> \<le> ulp (js_times a b) / 2"
proof -
  from assms(1) obtain s m e where a: "a = Finite s m e"
    by (cases a) simp_all
  from assms(2) obtain t n f where b: "b = Finite t n f"
    by (cases b) simp_all
  from assms(3) obtain u k g where l: "js_times a b = Finite u k g"
    by (cases "js_times a b") simp_all
  with a b have res: "to_double (s \<noteq> t) (shl (m * n) (e + f)) (shl 1 (- (e + f))) = Finite u k g"
    by simp
  have "(of_nat (shl (m * n) (e + f)) :: rat) / of_nat (shl 1 (- (e + f))) =
      of_nat (m * n) / of_nat 1 * 2 powi (e + f)"
    by (rule shl_ratio_neg)
  also have "\<dots> = of_nat m * 2 powi e * (of_nat n * 2 powi f)"
    by (simp add: power_int_add)
  finally have ratio: "(of_nat (shl (m * n) (e + f)) :: rat) / of_nat (shl 1 (- (e + f))) =
      of_nat m * 2 powi e * (of_nat n * 2 powi f)" .
  have "u = (s \<noteq> t) \<and>
      \<bar>(of_nat k :: rat) * 2 powi g -
        of_nat (shl (m * n) (e + f)) / of_nat (shl 1 (- (e + f)))\<bar> \<le> 2 powi g / 2"
    by (rule to_double_error [OF shl_one_pos res])
  then have u: "u = (s \<noteq> t)"
    and err: "\<bar>(of_nat k :: rat) * 2 powi g - of_nat m * 2 powi e * (of_nat n * 2 powi f)\<bar> \<le> 2 powi g / 2"
    by (simp_all only: ratio)
  have x: "x = (if s then - 1 else 1) * of_nat m * 2 powi e"
    and y: "y = (if t then - 1 else 1) * of_nat n * 2 powi f"
    and z: "z = (if u then - 1 else 1) * of_nat k * 2 powi g"
    using assms a b l by (simp_all only: value_of_powi option.inject)
  have "\<bar>z - x * y\<bar> = \<bar>(of_nat k :: rat) * 2 powi g - of_nat m * 2 powi e * (of_nat n * 2 powi f)\<bar>"
    by (cases s; cases t) (simp_all add: x y z u abs_minus_commute)
  with err show ?thesis
    by (simp add: l)
qed

lemma value_of_LAMPORTS_PER_SOL: "value_of LAMPORTS_PER_SOL = Some (10 ^ 9)"
  by (simp add: LAMPORTS_PER_SOL_def)

section \<open>Properties of the shared code\<close>

lemma ToBoolean_of_nullable: "ToBoolean (of_nullable x) = (\<exists>s. x = Some s \<and> s \<noteq> [])"
  by (cases x) simp_all

lemma prepared_append: "prepared (xs @ ys) = prepared xs @ prepared ys"
  by (induction xs rule: prepared.induct) simp_all

lemma transfers_append: "transfers (xs @ ys) = transfers xs @ transfers ys"
  by (induction xs rule: transfers.induct) simp_all

lemma fee_payers_append: "fee_payers (xs @ ys) = fee_payers xs @ fee_payers ys"
  by (induction xs rule: fee_payers.induct) simp_all

lemmas trace_append = prepared_append transfers_append fee_payers_append

text \<open>Whatever happens later, \<open>respond_transaction\<close> enters \<open>prepareTransaction\<close> once,
  with the arguments it was given.\<close>

lemma respond_prepared:
  "prepared (snd (respond_transaction sdk conn p r a t)) = prepared t @ [(p, r, a)]"
  by (simp add: respond_transaction_def prepareTransaction_def js_defs trace_append
      split: option.splits sum.splits prod.splits)

lemma respond_preparedD:
  "respond_transaction sdk conn p r a t = (res, t') \<Longrightarrow> prepared t' = prepared t @ [(p, r, a)]"
  using respond_prepared [of sdk conn p r a t] by simp

text \<open>It throws what the SDK threw, or answers 200.\<close>

lemma respond_resultD:
  "respond_transaction sdk conn p r a t = (res, t') \<Longrightarrow>
     res = Inl SdkError \<or> (\<exists>x. res = Inr x \<and> status x = 200)"
  by (auto simp: respond_transaction_def prepareTransaction_def js_defs Response_new_def
      split: option.splits sum.splits prod.splits)

text \<open>When it answers, the builder was asked once, for the product of the amount and
  \<open>LAMPORTS_PER_SOL\<close> from the payer to the copy of the receiver's key, and the message
  was compiled once, with the payer to pay the fee and that one instruction.\<close>

lemma respond_okD:
  "respond_transaction sdk conn p r a t = (Inr x, t') \<Longrightarrow>
     \<exists>k i. PublicKey sdk (Key r) = Some k \<and>
       transfer sdk p k (js_times a LAMPORTS_PER_SOL) = Some i \<and>
       transfers t' = transfers t @ [(p, k, js_times a LAMPORTS_PER_SOL)] \<and>
       fee_payers t' = fee_payers t @ [(p, [i])]"
  by (auto simp: respond_transaction_def prepareTransaction_def js_defs trace_append
      split: option.splits sum.splits prod.splits)

text \<open>In every run, the builder is asked once the receiver's key is copied, and a
  message is compiled once the instruction is built and the block reference obtained.\<close>

lemma respond_tracesD:
  "respond_transaction sdk conn p r a t = (res, t') \<Longrightarrow>
     transfers t' = transfers t @
       (case PublicKey sdk (Key r) of
          None \<Rightarrow> []
        | Some k \<Rightarrow> [(p, k, js_times a LAMPORTS_PER_SOL)]) \<and>
     fee_payers t' = fee_payers t @
       (case PublicKey sdk (Key r) of
          None \<Rightarrow> []
        | Some k \<Rightarrow>
            (case transfer sdk p k (js_times a LAMPORTS_PER_SOL) of
               None \<Rightarrow> []
             | Some i \<Rightarrow>
                 (case getLatestBlockhash conn of None \<Rightarrow> [] | Some b \<Rightarrow> [(p, [i])])))"
  by (auto simp: respond_transaction_def prepareTransaction_def js_defs trace_append
      split: option.splits sum.splits prod.splits)

lemma respond_transfers:
  "transfers (snd (respond_transaction sdk conn p r a t)) = transfers t @
     (case PublicKey sdk (Key r) of
        None \<Rightarrow> []
      | Some k \<Rightarrow> [(p, k, js_times a LAMPORTS_PER_SOL)])"
  using respond_tracesD [of sdk conn p r a t] by (cases "respond_transaction sdk conn p r a t") simp

lemma respond_fee_payers:
  "fee_payers (snd (respond_transaction sdk conn p r a t)) = fee_payers t @
     (case PublicKey sdk (Key r) of
        None \<Rightarrow> []
      | Some k \<Rightarrow>
          (case transfer sdk p k (js_times a LAMPORTS_PER_SOL) of
             None \<Rightarrow> []
           | Some i \<Rightarrow>
               (case getLatestBlockhash conn of None \<Rightarrow> [] | Some b \<Rightarrow> [(p, [i])])))"
  using respond_tracesD [of sdk conn p r a t] by (cases "respond_transaction sdk conn p r a t") simp

lemmas respond_observed = respond_prepared respond_transfers respond_fee_payers

text \<open>The trace and the result of a composed computation, from those of its parts.\<close>

lemma run_and_then:
  "fst (and_then m f t) = (case fst (m t) of Inl e \<Rightarrow> Inl e | Inr x \<Rightarrow> fst (f x (snd (m t))))"
  "snd (and_then m f t) = (case fst (m t) of Inl e \<Rightarrow> snd (m t) | Inr x \<Rightarrow> snd (f x (snd (m t))))"
  by (simp_all add: and_then_def split: prod.splits sum.splits)

lemma run_try_catch:
  "fst (try_catch m catch_all t) =
     (case fst (m t) of Inl e \<Rightarrow> internal_server_error | Inr x \<Rightarrow> x)"
  "snd (try_catch m catch_all t) =
     snd (m t) @ (case fst (m t) of Inl e \<Rightarrow> [ConsoleError] | Inr x \<Rightarrow> [])"
  by (simp_all add: try_catch_def catch_all_def split: prod.splits sum.splits)

lemma run_rejecting:
  "fst (rejecting m t) = (case fst (m t) of Inl e \<Rightarrow> Inl (Rejected e) | Inr x \<Rightarrow> Inr x)"
  "snd (rejecting m t) =
     snd (m t) @ (case fst (m t) of Inl e \<Rightarrow> [ConsoleError] | Inr x \<Rightarrow> [])"
  by (simp_all add: rejecting_def split: prod.splits sum.splits)

lemma run_call:
  "fst (call ev e r t) = (case r of None \<Rightarrow> Inl e | Some x \<Rightarrow> Inr x)"
  "snd (call ev e r t) = t @ [ev]"
  by (simp_all add: call_def)

lemma run_basic:
  "fst (emit ev t) = Inr ()" "snd (emit ev t) = t @ [ev]"
  "fst (ret x t) = Inr x" "snd (ret x t) = t"
  "fst (throw e t) = Inl e" "snd (throw e t) = t"
  "fst (lift r t) = r" "snd (lift r t) = t"
  by (simp_all add: emit_def ret_def throw_def lift_def split: sum.splits)

lemma console_observed:
  "prepared (case x of Inl e \<Rightarrow> [ConsoleError] | Inr y \<Rightarrow> []) = []"
  "transfers (case x of Inl e \<Rightarrow> [ConsoleError] | Inr y \<Rightarrow> []) = []"
  "fee_payers (case x of Inl e \<Rightarrow> [ConsoleError] | Inr y \<Rightarrow> []) = []"
  by (cases x; simp)+

lemmas run_simps =
  run_and_then run_try_catch run_rejecting run_call run_basic new_PublicKey_def req_json_def
  Let_def

text \<open>The helper asks nothing of the builder, and resolves with the keys made from the
  receiver parameter and the body's account and with the number read from the amount
  parameter.\<close>

lemma verify_observed:
  "prepared (snd (verifyTransferInstruction sdk req t)) = prepared t"
  "transfers (snd (verifyTransferInstruction sdk req t)) = transfers t"
  "fee_payers (snd (verifyTransferInstruction sdk req t)) = fee_payers t"
  by (simp_all add: verifyTransferInstruction_def run_simps trace_append console_observed
      split: option.splits sum.splits)

lemma verify_resolved:
  "fst (verifyTransferInstruction sdk req t) = Inr v \<Longrightarrow>
     \<exists>j acc. json req = Some j \<and> get_account j = Inr acc \<and>
       PublicKey sdk (Raw acc) = Some (payer v) \<and>
       PublicKey sdk (Raw (of_nullable (get (url req) ''receiver''))) = Some (receiver v) \<and>
       amount v = Number (get (url req) ''amount'')"
  by (cases v)
    (auto simp: verifyTransferInstruction_def js_defs ToBoolean_of_nullable
      split: option.splits sum.splits prod.splits if_splits)


lemma internal_server_error_status: "status internal_server_error = 500"
  by (simp add: internal_server_error_def Response_new_def)

lemma bad_request_neq: "Response_new None 400 \<noteq> internal_server_error"
  by (simp add: internal_server_error_def Response_new_def)

section \<open>The claims\<close>

subsection \<open>C1: which amounts reach construction\<close>

text \<open>
  C1, as the code has it. Take a request whose receiver parameter and whose account are
  accepted by the key constructor and whose amount parameter is the string \<open>s\<close>.
  In route.ts it enters \<open>prepareTransaction\<close> with \<open>Number(s)\<close>, whatever this number is;
  in part_000 it does so when the three inputs are non-empty, and an empty amount string
  is answered with the 500 error without entering; in both documents of route.tsx it
  enters exactly when \<open>Number(s)\<close> is neither a zero nor \<open>NaN\<close> (so negative and
  infinite amounts enter), and is answered with the empty 400 otherwise.
\<close>

theorem C1_amounts_reaching_construction:
  assumes "get (url req) ''receiver'' = Some rs" and "PublicKey sdk (Raw (JStr rs)) = Some r"
    and "json req = Some j" and "get_account j = Inr acc" and "PublicKey sdk (Raw acc) = Some p"
    and "get (url req) ''amount'' = Some s"
  shows "prepared (snd (POST_ts sdk conn req)) = [(p, r, Number (Some s))] \<and>
    (rs \<noteq> [] \<and> ToBoolean acc \<longrightarrow>
       (if s \<noteq> [] then prepared (snd (POST_part_000 sdk conn req)) = [(p, r, Number (Some s))]
        else fst (POST_part_000 sdk conn req) = internal_server_error \<and>
             prepared (snd (POST_part_000 sdk conn req)) = [])) \<and>
    (\<forall>POST \<in> {POST_tsx, POST_tsx2}.
       if ToBoolean (JNum (Number (Some s)))
       then prepared (snd (POST sdk conn req)) = [(p, r, Number (Some s))]
       else fst (POST sdk conn req) = Response_new None 400 \<and>
            prepared (snd (POST sdk conn req)) = [])"
proof (intro conjI impI ballI)
  show "prepared (snd (POST_ts sdk conn req)) = [(p, r, Number (Some s))]"
    using assms
    by (auto simp: POST_ts_def js_defs trace_append split: prod.splits sum.splits
        dest: respond_preparedD)
next
  assume "rs \<noteq> [] \<and> ToBoolean acc"
  then show "if s \<noteq> [] then prepared (snd (POST_part_000 sdk conn req)) = [(p, r, Number (Some s))]
        else fst (POST_part_000 sdk conn req) = internal_server_error \<and>
             prepared (snd (POST_part_000 sdk conn req)) = []"
    using assms
    by (auto simp: POST_part_000_def verifyTransferInstruction_def js_defs trace_append
        split: prod.splits sum.splits dest: respond_preparedD)
next
  fix POST :: "('a, 'b, 'c, 'd) sdk \<Rightarrow> connection \<Rightarrow> request \<Rightarrow> response \<times> ('a, 'b, 'c, 'd) event list"
  assume "POST \<in> {POST_tsx, POST_tsx2}"
  then have "POST = POST_tsx"
    by (auto simp: POST_tsx2_def)
  then show "if ToBoolean (JNum (Number (Some s)))
       then prepared (snd (POST sdk conn req)) = [(p, r, Number (Some s))]
       else fst (POST sdk conn req) = Response_new None 400 \<and>
            prepared (snd (POST sdk conn req)) = []"
    using assms
    by (auto simp: POST_tsx_def js_defs trace_append ToBoolean_object_def
        split: prod.splits sum.splits dest: respond_preparedD)
qed

text \<open>A negative amount and an infinite one enter construction in every document.\<close>

theorem C1_negative_and_infinite_amounts_enter:
  "prepared (snd (POST_ts strict_sdk devnet (transfer_request ''-1''))) =
     [(alice, bob, Finite True 4503599627370496 (- 52))] \<and>
   prepared (snd (POST_part_000 strict_sdk devnet (transfer_request ''-1''))) =
     [(alice, bob, Finite True 4503599627370496 (- 52))] \<and>
   prepared (snd (POST_tsx strict_sdk devnet (transfer_request ''-1''))) =
     [(alice, bob, Finite True 4503599627370496 (- 52))] \<and>
   prepared (snd (POST_tsx2 strict_sdk devnet (transfer_request ''Infinity''))) =
     [(alice, bob, Infinity False)]"
proof -
  have keys: "PublicKey strict_sdk (Raw (JStr bob)) = Some bob"
    "PublicKey strict_sdk (Raw (JStr alice)) = Some alice"
    by (simp_all add: strict_sdk_def alice_key bob_key)
  have req: "get (url (transfer_request x)) ''receiver'' = Some bob"
    "get (url (transfer_request x)) ''amount'' = Some x"
    "json (transfer_request x) = Some (account_of alice)"
    "get_account (account_of alice) = Inr (JStr alice)" for x
    by (simp_all add: transfer_request_def post_request_def get_def account_of_def)
  note neg = C1_amounts_reaching_construction
    [where req = "transfer_request ''-1''" and conn = devnet,
     OF req(1) keys(1) req(3) req(4) keys(2) req(2)]
  note inf = C1_amounts_reaching_construction
    [where req = "transfer_request ''Infinity''" and conn = devnet,
     OF req(1) keys(1) req(3) req(4) keys(2) req(2)]
  from neg inf show ?thesis
    by (simp add: number_eval names_nonempty)
qed

text \<open>
  C1 as stated fails on a zero amount: with both keys accepted and the amount \<open>0\<close>,
  route.tsx answers the empty 400 and never enters \<open>prepareTransaction\<close>.
\<close>

theorem C1_zero_amount_is_turned_away:
  "PublicKey strict_sdk (Raw (JStr bob)) = Some bob \<and>
   PublicKey strict_sdk (Raw (JStr alice)) = Some alice \<and>
   value_of (Number (Some ''0'')) = Some 0 \<and>
   POST_tsx strict_sdk devnet (transfer_request ''0'') =
     (Response_new None 400,
      [NewPublicKey (Raw (JStr bob)), ReqJson, NewPublicKey (Raw (JStr alice)),
       ConsoleLog, ConsoleLog])"
  by (simp add: POST_tsx_def run_defs)

subsection \<open>C2: a missing amount\<close>

text \<open>
  C2 fails in route.ts. The request names a receiver and a payer and no amount:
  \<open>Number(null)\<close> is \<open>+0\<close>, nothing checks it, the builder is asked for a transfer of 0
  lamports and the answer is 200 with a transaction. On the same request part_000
  answers the 500 error.
\<close>

theorem C2_route_ts_accepts_missing_amount:
  "get (url no_amount_request) ''amount'' = None \<and>
   fst (POST_ts strict_sdk devnet no_amount_request) =
     Response_new (Some (JObj [(''type'', JStr ''transaction''),
       (''transaction'', JStr ''RWtTbk5XaWQyY3Z3RVZuVng5YUJxYXdu'')])) 200 \<and>
   transfers (snd (POST_ts strict_sdk devnet no_amount_request)) =
     [(alice, bob, Finite False 0 (- 1074))] \<and>
   fst (POST_part_000 strict_sdk devnet no_amount_request) = internal_server_error"
  by (simp add: POST_ts_def POST_part_000_def run_defs)

subsection \<open>C3: the order of the construction steps\<close>

text \<open>
  C3, as the code has it. \<open>prepareTransaction\<close> first copies the receiver's key and asks
  the builder for the transfer instruction, then requests the block reference from the
  ledger, then compiles the message, then wraps it. Each step is taken exactly when
  every earlier one returned: the run ends with the first call that throws, and returns
  the transaction when none does.
\<close>

theorem C3_order_of_construction:
  "prepareTransaction sdk conn p r a t =
     (case PublicKey sdk (Key r) of
        None \<Rightarrow>
          (Inl SdkError, t @ [PrepareTransaction p r a, NewPublicKey (Key r)])
      | Some k \<Rightarrow>
          (case transfer sdk p k (js_times a LAMPORTS_PER_SOL) of
             None \<Rightarrow>
               (Inl SdkError,
                t @ [PrepareTransaction p r a, NewPublicKey (Key r),
                     SystemProgram_transfer p k (js_times a LAMPORTS_PER_SOL)])
           | Some i \<Rightarrow>
               (case getLatestBlockhash conn of
                  None \<Rightarrow>
                    (Inl SdkError,
                     t @ [PrepareTransaction p r a, NewPublicKey (Key r),
                          SystemProgram_transfer p k (js_times a LAMPORTS_PER_SOL),
                          GetLatestBlockhash])
                | Some b \<Rightarrow>
                    (case compileToV0Message sdk p b [i] of
                       None \<Rightarrow>
                         (Inl SdkError,
                          t @ [PrepareTransaction p r a, NewPublicKey (Key r),
                               SystemProgram_transfer p k (js_times a LAMPORTS_PER_SOL),
                               GetLatestBlockhash, CompileToV0Message p b [i]])
                     | Some m \<Rightarrow>
                         (case VersionedTransaction sdk m of None \<Rightarrow> Inl SdkError | Some tx \<Rightarrow> Inr tx,
                          t @ [PrepareTransaction p r a, NewPublicKey (Key r),
                               SystemProgram_transfer p k (js_times a LAMPORTS_PER_SOL),
                               GetLatestBlockhash, CompileToV0Message p b [i],
                               NewVersionedTransaction m])))))"
proof (cases "PublicKey sdk (Key r)")
  case None
  then show ?thesis
    by (simp add: prepareTransaction_def js_defs)
next
  case key: (Some k)
  show ?thesis
  proof (cases "transfer sdk p k (js_times a LAMPORTS_PER_SOL)")
    case None
    with key show ?thesis
      by (simp add: prepareTransaction_def js_defs)
  next
    case instruction: (Some i)
    show ?thesis
    proof (cases "getLatestBlockhash conn")
      case None
      with key instruction show ?thesis
        by (simp add: prepareTransaction_def js_defs)
    next
      case (Some b)
      with key instruction show ?thesis
        by (simp add: prepareTransaction_def js_defs split: option.splits)
    qed
  qed
qed

text \<open>With the ledger out of reach the run ends at the request for the block
  reference, after the instruction was built.\<close>

theorem C3_ledger_out_of_reach:
  "prepareTransaction strict_sdk offline alice bob (Finite False 4503599627370496 (- 52)) [] =
     (Inl SdkError,
      [PrepareTransaction alice bob (Finite False 4503599627370496 (- 52)),
       NewPublicKey (Key bob),
       SystemProgram_transfer alice bob (Finite False 8388608000000000 (- 23)),
       GetLatestBlockhash])"
  using C3_order_of_construction
    [of strict_sdk offline alice bob "Finite False 4503599627370496 (- 52)" "[]"]
  by (simp add: strict_sdk_def offline_def copy_key number_eval)

text \<open>
  C3 as stated fails: the instruction is built before the block reference is requested.
  On a run that succeeds the builder's call stands before the ledger's in the trace; on
  one where the builder throws, the ledger is never asked.
\<close>

theorem C3_instruction_before_block_reference:
  "snd (prepareTransaction strict_sdk devnet alice bob (Finite False 4503599627370496 (- 52)) []) =
     [PrepareTransaction alice bob (Finite False 4503599627370496 (- 52)),
      NewPublicKey (Key bob),
      SystemProgram_transfer alice bob (Finite False 8388608000000000 (- 23)),
      GetLatestBlockhash,
      CompileToV0Message alice ''EkSnNWid2cvwEVnVx9aBqawn''
        [(alice, bob, Finite False 8388608000000000 (- 23))],
      NewVersionedTransaction (alice, ''EkSnNWid2cvwEVnVx9aBqawn'',
        [(alice, bob, Finite False 8388608000000000 (- 23))])] \<and>
   prepareTransaction strict_sdk devnet alice bob NaN [] =
     (Inl SdkError,
      [PrepareTransaction alice bob NaN, NewPublicKey (Key bob),
       SystemProgram_transfer alice bob NaN])"
  by (simp add: run_defs)

subsection \<open>C4: the metadata document\<close>

text \<open>
  C4. For every request, \<open>GET\<close> of each of the four documents answers 200 with a document
  whose \<open>links.actions\<close> is an array of exactly one entry, whose \<open>parameters\<close> are an
  array of exactly two entries, named \<open>receiver\<close> and \<open>amount\<close> in that order and both
  required.
\<close>

theorem C4_metadata_actions:
  assumes "GET \<in> {GET_ts, GET_tsx, GET_tsx2, GET_part_000}"
  shows "status (GET req) = 200 \<and>
    (\<exists>doc a p1 p2. body (GET req) = Some doc \<and>
       field ''actions'' (field ''links'' doc) = JArr [a] \<and>
       field ''parameters'' a = JArr [p1, p2] \<and>
       field ''name'' p1 = JStr ''receiver'' \<and> field ''required'' p1 = JBool True \<and>
       field ''name'' p2 = JStr ''amount'' \<and> field ''required'' p2 = JBool True)"
proof -
  from assms consider "GET = GET_ts" | "GET = GET_tsx"
    by (auto simp: GET_tsx2_def GET_part_000_def)
  then show ?thesis
  proof cases
    case 1
    then show ?thesis
      by (simp add: GET_ts_def Response_new_def)
  next
    case 2
    then show ?thesis
      by (simp add: GET_tsx_def Response_new_def)
  qed
qed

theorem C4_metadata_actions_witness:
  "status (GET_part_000 metadata_request) = 200 \<and>
    (\<exists>doc a p1 p2. body (GET_part_000 metadata_request) = Some doc \<and>
       field ''actions'' (field ''links'' doc) = JArr [a] \<and>
       field ''parameters'' a = JArr [p1, p2] \<and>
       field ''name'' p1 = JStr ''receiver'' \<and> field ''required'' p1 = JBool True \<and>
       field ''name'' p2 = JStr ''amount'' \<and> field ''required'' p2 = JBool True)"
  by (rule C4_metadata_actions) simp

subsection \<open>C5: an amount that is not a number\<close>



subsection \<open>C6: the failure responses\<close>

text \<open>
  C6, as the code has it. Every answer of \<open>POST\<close> in route.ts and in part_000, the
  document whose validation is a helper function, has status 200 or is the 500 error with
  the body \<open>{error: "Internal server error"}\<close>; every answer of \<open>POST\<close> in the two
  documents of route.tsx, whose validation is inline, has status 200, is that 500 error,
  or is the 400 with the empty body.
\<close>

theorem C6_failure_responses:
  "(status (fst (POST_ts sdk conn req)) = 200 \<or>
      fst (POST_ts sdk conn req) = internal_server_error) \<and>
   (status (fst (POST_part_000 sdk conn req)) = 200 \<or>
      fst (POST_part_000 sdk conn req) = internal_server_error) \<and>
   (\<forall>POST \<in> {POST_tsx, POST_tsx2}.
      status (fst (POST sdk conn req)) = 200 \<or>
      fst (POST sdk conn req) = internal_server_error \<or>
      fst (POST sdk conn req) = Response_new None 400)"
proof (intro conjI ballI)
  show "status (fst (POST_ts sdk conn req)) = 200 \<or>
      fst (POST_ts sdk conn req) = internal_server_error"
    by (auto simp: POST_ts_def js_defs split: option.splits sum.splits prod.splits
        dest: respond_resultD)
  show "status (fst (POST_part_000 sdk conn req)) = 200 \<or>
      fst (POST_part_000 sdk conn req) = internal_server_error"
    by (auto simp: POST_part_000_def verifyTransferInstruction_def js_defs
        split: option.splits sum.splits prod.splits dest: respond_resultD)
next
  fix POST :: "('a, 'b, 'c, 'd) sdk \<Rightarrow> connection \<Rightarrow> request \<Rightarrow> response \<times> ('a, 'b, 'c, 'd) event list"
  assume "POST \<in> {POST_tsx, POST_tsx2}"
  then have "POST = POST_tsx"
    by (auto simp: POST_tsx2_def)
  then show "status (fst (POST sdk conn req)) = 200 \<or>
      fst (POST sdk conn req) = internal_server_error \<or>
      fst (POST sdk conn req) = Response_new None 400"
    by (auto simp: POST_tsx_def js_defs split: option.splits sum.splits prod.splits
        dest: respond_resultD)
qed

theorem C6_failure_responses_witness:
  "fst (POST_ts strict_sdk devnet (transfer_request ''0.5x'')) = internal_server_error \<and>
   fst (POST_part_000 strict_sdk devnet (transfer_request ''0.5x'')) = internal_server_error \<and>
   fst (POST_tsx strict_sdk devnet (transfer_request ''0.5x'')) = Response_new None 400 \<and>
   fst (POST_tsx2 strict_sdk devnet (transfer_request ''0.5x'')) = Response_new None 400"
proof -
  have nan: "StringToNumber ''0.5x'' = NaN"
    by (simp add: parse_eval)
  have tsx: "fst (POST_tsx strict_sdk devnet (transfer_request ''0.5x'')) = Response_new None 400"
    by (simp add: POST_tsx_def run_defs nan)
  have "status (fst (POST_ts strict_sdk devnet (transfer_request ''0.5x''))) \<noteq> 200"
    by (simp add: POST_ts_def run_defs nan internal_server_error_status)
  moreover have "status (fst (POST_part_000 strict_sdk devnet (transfer_request ''0.5x''))) \<noteq> 200"
    by (simp add: POST_part_000_def run_defs nan internal_server_error_status)
  ultimately show ?thesis
    using C6_failure_responses [of strict_sdk devnet "transfer_request ''0.5x''"] tsx
    by (simp add: POST_tsx2_def)
qed

text \<open>
  C6 as stated fails: the empty 400 comes from the documents whose validation is inline,
  not from the one with the helper. With the amount missing, route.tsx answers the
  empty 400 and part_000 the 500 error.
\<close>

theorem C6_empty_400_is_the_inline_guard:
  "POST_tsx strict_sdk devnet no_amount_request =
     (Response_new None 400,
      [NewPublicKey (Raw (JStr bob)), ReqJson, NewPublicKey (Raw (JStr alice)),
       ConsoleLog, ConsoleLog]) \<and>
   POST_part_000 strict_sdk devnet no_amount_request =
     (internal_server_error, [ReqJson, ConsoleError, ConsoleError])"
  by (simp add: POST_tsx_def POST_part_000_def run_defs)

subsection \<open>C7: what the transfer instruction moves\<close>

text \<open>An answer 200 of any of the four documents comes with one instruction asked of
  the builder and one message compiled.\<close>

lemma answered_200_transfer:
  assumes "POST \<in> {POST_ts, POST_tsx, POST_tsx2, POST_part_000}"
    and "status (fst (POST sdk conn req)) = 200"
  shows "\<exists>p r k i j acc.
    json req = Some j \<and> get_account j = Inr acc \<and> PublicKey sdk (Raw acc) = Some p \<and>
    PublicKey sdk (Raw (of_nullable (get (url req) ''receiver''))) = Some r \<and>
    PublicKey sdk (Key r) = Some k \<and>
    transfer sdk p k (js_times (Number (get (url req) ''amount'')) LAMPORTS_PER_SOL) = Some i \<and>
    transfers (snd (POST sdk conn req)) =
      [(p, k, js_times (Number (get (url req) ''amount'')) LAMPORTS_PER_SOL)] \<and>
    fee_payers (snd (POST sdk conn req)) = [(p, [i])]"
proof -
  from assms(1) consider "POST = POST_ts" | "POST = POST_tsx" | "POST = POST_part_000"
    by (auto simp: POST_tsx2_def)
  then show ?thesis
  proof cases
    case 1
    with assms(2) show ?thesis
      by (auto simp: POST_ts_def js_defs internal_server_error_status
          split: option.splits sum.splits prod.splits dest: respond_okD)
  next
    case 2
    with assms(2) show ?thesis
      by (auto simp: POST_tsx_def js_defs internal_server_error_status Response_new_def
          split: option.splits sum.splits prod.splits if_splits dest: respond_okD)
  next
    case 3
    with assms(2) show ?thesis
      by (auto simp: POST_part_000_def verifyTransferInstruction_def js_defs
          internal_server_error_status
          split: option.splits sum.splits prod.splits if_splits dest: respond_okD)
  qed
qed

text \<open>A request is validated when the handler enters \<open>prepareTransaction\<close>: it does so
  with the keys made from the body's account and from the receiver parameter and with
  the number read from the amount parameter, and what it asks of the builder and
  compiles afterwards is decided by what the SDK and the ledger return.\<close>

lemma validated_transfer:
  assumes "POST \<in> {POST_ts, POST_tsx, POST_tsx2, POST_part_000}"
    and "prepared (snd (POST sdk conn req)) \<noteq> []"
  shows "\<exists>p r j acc.
    json req = Some j \<and> get_account j = Inr acc \<and> PublicKey sdk (Raw acc) = Some p \<and>
    PublicKey sdk (Raw (of_nullable (get (url req) ''receiver''))) = Some r \<and>
    prepared (snd (POST sdk conn req)) = [(p, r, Number (get (url req) ''amount''))] \<and>
    transfers (snd (POST sdk conn req)) =
      (case PublicKey sdk (Key r) of
         None \<Rightarrow> []
       | Some k \<Rightarrow> [(p, k, js_times (Number (get (url req) ''amount'')) LAMPORTS_PER_SOL)]) \<and>
    fee_payers (snd (POST sdk conn req)) =
      (case PublicKey sdk (Key r) of
         None \<Rightarrow> []
       | Some k \<Rightarrow>
           (case transfer sdk p k (js_times (Number (get (url req) ''amount'')) LAMPORTS_PER_SOL) of
              None \<Rightarrow> []
            | Some i \<Rightarrow>
                (case getLatestBlockhash conn of None \<Rightarrow> [] | Some b \<Rightarrow> [(p, [i])])))"
proof -
  from assms(1) consider "POST = POST_ts" | "POST = POST_tsx" | "POST = POST_part_000"
    by (auto simp: POST_tsx2_def)
  then show ?thesis
  proof cases
    case 1
    with assms(2) show ?thesis
      by (auto simp: POST_ts_def run_simps trace_append respond_observed
          split: option.splits sum.splits)
  next
    case 2
    with assms(2) show ?thesis
      by (auto simp: POST_tsx_def run_simps trace_append respond_observed
          split: option.splits sum.splits if_splits)
  next
    case 3
    show ?thesis
    proof (cases "fst (verifyTransferInstruction sdk req [])")
      case (Inl e)
      then have "prepared (snd (POST sdk conn req)) = []"
        by (simp add: 3 POST_part_000_def run_and_then run_try_catch trace_append
            verify_observed console_observed)
      with assms(2) show ?thesis
        by simp
    next
      case (Inr v)
      from verify_resolved [OF Inr] obtain j acc where
        "json req = Some j" "get_account j = Inr acc" "PublicKey sdk (Raw acc) = Some (payer v)"
        "PublicKey sdk (Raw (of_nullable (get (url req) ''receiver''))) = Some (receiver v)"
        "amount v = Number (get (url req) ''amount'')"
        by blast
      then show ?thesis
        by (simp add: 3 Inr POST_part_000_def run_and_then run_try_catch trace_append
            verify_observed console_observed respond_observed)
    qed
  qed
qed

text \<open>
  C7, as the code has it. For every validated request, in any of the four documents,
  the only instruction asked of the builder, asked once the receiver's key is copied, is
  the transfer from the payer, the key made from the body's account, to that copy of the
  key made from the receiver parameter, of \<open>Number(amount) * LAMPORTS_PER_SOL\<close> lamports;
  and the only message compiled, once the instruction is built and the block reference
  obtained, names the payer as fee payer and holds that one instruction. The lamports
  are the product in double arithmetic: a canonical double which, when it and the amount
  are finite, lies within half a unit in its last place of the amount times 10^9.
\<close>

theorem C7_transfer_of_the_double_product:
  assumes "POST \<in> {POST_ts, POST_tsx, POST_tsx2, POST_part_000}"
    and "prepared (snd (POST sdk conn req)) \<noteq> []"
  shows "\<exists>p r j acc l.
    l = js_times (Number (get (url req) ''amount'')) LAMPORTS_PER_SOL \<and>
    json req = Some j \<and> get_account j = Inr acc \<and> PublicKey sdk (Raw acc) = Some p \<and>
    PublicKey sdk (Raw (of_nullable (get (url req) ''receiver''))) = Some r \<and>
    prepared (snd (POST sdk conn req)) = [(p, r, Number (get (url req) ''amount''))] \<and>
    transfers (snd (POST sdk conn req)) =
      (case PublicKey sdk (Key r) of None \<Rightarrow> [] | Some k \<Rightarrow> [(p, k, l)]) \<and>
    fee_payers (snd (POST sdk conn req)) =
      (case PublicKey sdk (Key r) of
         None \<Rightarrow> []
       | Some k \<Rightarrow>
           (case transfer sdk p k l of
              None \<Rightarrow> []
            | Some i \<Rightarrow>
                (case getLatestBlockhash conn of None \<Rightarrow> [] | Some b \<Rightarrow> [(p, [i])]))) \<and>
    canonical l \<and>
    (\<forall>x z. value_of (Number (get (url req) ''amount'')) = Some x \<and> value_of l = Some z \<longrightarrow>
       \<bar>z - x * 10 ^ 9\<bar> \<le> ulp l / 2)"
proof -
  define l where "l = js_times (Number (get (url req) ''amount'')) LAMPORTS_PER_SOL"
  from validated_transfer [OF assms] obtain p r j acc where built:
    "json req = Some j" "get_account j = Inr acc" "PublicKey sdk (Raw acc) = Some p"
    "PublicKey sdk (Raw (of_nullable (get (url req) ''receiver''))) = Some r"
    "prepared (snd (POST sdk conn req)) = [(p, r, Number (get (url req) ''amount''))]"
    "transfers (snd (POST sdk conn req)) =
      (case PublicKey sdk (Key r) of None \<Rightarrow> [] | Some k \<Rightarrow> [(p, k, l)])"
    "fee_payers (snd (POST sdk conn req)) =
      (case PublicKey sdk (Key r) of
         None \<Rightarrow> []
       | Some k \<Rightarrow>
           (case transfer sdk p k l of
              None \<Rightarrow> []
            | Some i \<Rightarrow>
                (case getLatestBlockhash conn of None \<Rightarrow> [] | Some b \<Rightarrow> [(p, [i])])))"
    unfolding l_def by blast
  have shape: "canonical l"
    unfolding l_def by (rule js_times_canonical)
  have near: "\<bar>z - x * 10 ^ 9\<bar> \<le> ulp l / 2"
    if "value_of (Number (get (url req) ''amount'')) = Some x" and "value_of l = Some z" for x z
    using js_times_rounds [OF that(1) value_of_LAMPORTS_PER_SOL that(2) [unfolded l_def]]
    by (simp only: l_def)
  from built shape near show ?thesis
    unfolding l_def by blast
qed

text \<open>The amount \<open>1.5\<close> is validated and answered 200 with a transfer of 1500000000
  lamports; the amount \<open>8.2\<close> is validated, the builder is asked for
  8598323199999999 / 2^20 = 8199999999.999999 lamports, throws, and no message is
  compiled.\<close>

theorem C7_one_and_a_half:
  "prepared (snd (POST_part_000 strict_sdk devnet (transfer_request ''1.5''))) =
     [(alice, bob, Finite False 6755399441055744 (- 52))] \<and>
   transfers (snd (POST_part_000 strict_sdk devnet (transfer_request ''1.5''))) =
     [(alice, bob, Finite False 6291456000000000 (- 22))] \<and>
   fee_payers (snd (POST_part_000 strict_sdk devnet (transfer_request ''1.5''))) =
     [(alice, [(alice, bob, Finite False 6291456000000000 (- 22))])] \<and>
   value_of (Finite False 6291456000000000 (- 22)) = Some 1500000000 \<and>
   transfers (snd (POST_ts strict_sdk devnet (transfer_request ''8.2''))) =
     [(alice, bob, Finite False 8598323199999999 (- 20))] \<and>
   fee_payers (snd (POST_ts strict_sdk devnet (transfer_request ''8.2''))) = []"
proof -
  have a: "prepared (snd (POST_part_000 strict_sdk devnet (transfer_request ''1.5''))) \<noteq> []"
    by (simp add: POST_part_000_def run_defs)
  have b: "prepared (snd (POST_ts strict_sdk devnet (transfer_request ''8.2''))) \<noteq> []"
    by (simp add: POST_ts_def run_defs)
  have "POST_part_000 \<in> {POST_ts, POST_tsx, POST_tsx2, POST_part_000}"
    by simp
  note one = C7_transfer_of_the_double_product [OF this a]
  have "POST_ts \<in> {POST_ts, POST_tsx, POST_tsx2, POST_part_000}"
    by simp
  note two = C7_transfer_of_the_double_product [OF this b]
  from one two show ?thesis
    by (auto simp: transfer_request_def post_request_def get_def account_of_def strict_sdk_def
        devnet_def alice_key bob_key copy_key number_eval split: if_splits)
qed

text \<open>
  C7 as stated fails, since the product is a double. The amount \<open>9007199.254740993\<close>
  is answered 200 with a transfer of 2^53 = 9007199254740992 lamports, which is neither
  the parsed amount times 10^9 nor 9007199254740993.
\<close>

theorem C7_product_is_rounded:
  "Number (Some ''9007199.254740993'') = Finite False 4835703278458517 (- 29) \<and>
   status (fst (POST_ts strict_sdk devnet (transfer_request ''9007199.254740993''))) = 200 \<and>
   transfers (snd (POST_ts strict_sdk devnet (transfer_request ''9007199.254740993''))) =
     [(alice, bob, Finite False 4503599627370496 1)] \<and>
   fee_payers (snd (POST_ts strict_sdk devnet (transfer_request ''9007199.254740993''))) =
     [(alice, [(alice, bob, Finite False 4503599627370496 1)])] \<and>
   value_of (Finite False 4503599627370496 1) = Some 9007199254740992 \<and>
   \<not> scaled_exactly (Finite False 4835703278458517 (- 29)) (Finite False 4503599627370496 1)"
  by (simp add: POST_ts_def run_defs Response_new_def scaled_exactly_def)

subsection \<open>C8: the icon of the metadata document\<close>

text \<open>
  C8 fails in the first document of route.tsx: its icon is the constant
  \<open>http://localhost:3000/transfer-sol.png\<close>, whatever the host of the request, where the
  other three documents derive it from the request's URL.
\<close>

theorem C8_icon_of_route_tsx_is_localhost:
  "host (url metadata_request) = ''blinks.example.com'' \<and>
   field ''icon'' (case body (GET_tsx metadata_request) of Some doc \<Rightarrow> doc | None \<Rightarrow> JUndefined) =
     JStr ''http://localhost:3000/transfer-sol.png'' \<and>
   field ''icon'' (case body (GET_ts metadata_request) of Some doc \<Rightarrow> doc | None \<Rightarrow> JUndefined) =
     JStr ''https://blinks.example.com/transfer-sol.png''"
  by (simp add: metadata_request_def GET_tsx_def GET_ts_def Response_new_def URL_toString_def)

subsection \<open>C9: the inline guard\<close>

text \<open>
  C9. In both documents of route.tsx, \<open>!receiver\<close> is false of every key object; the
  answer is the empty 400 exactly when the key constructor accepts the receiver
  parameter, the body is JSON whose \<open>account\<close> can be read and is accepted by the key
  constructor, and \<open>Number(amount)\<close> is a zero or \<open>NaN\<close>; and when the key constructor
  throws on the receiver parameter, missing or not, the answer is the 500 error.
\<close>

theorem C9_inline_guard:
  assumes "POST \<in> {POST_tsx, POST_tsx2}"
  shows "ToBoolean_object (k :: 'k) \<and>
    ((fst (POST (sdk :: ('k, 'i, 'm, 't) sdk) conn req) = Response_new None 400) =
       ((\<exists>r j acc p.
           PublicKey sdk (Raw (of_nullable (get (url req) ''receiver''))) = Some r \<and>
           json req = Some j \<and> get_account j = Inr acc \<and> PublicKey sdk (Raw acc) = Some p) \<and>
        (is_zero (Number (get (url req) ''amount'')) \<or> Number (get (url req) ''amount'') = NaN))) \<and>
    (PublicKey sdk (Raw (of_nullable (get (url req) ''receiver''))) = None \<longrightarrow>
       fst (POST sdk conn req) = internal_server_error)"
proof -
  from assms have POST: "POST = POST_tsx"
    by (auto simp: POST_tsx2_def)
  have "(fst (POST_tsx sdk conn req) = Response_new None 400) =
       ((\<exists>r j acc p.
           PublicKey sdk (Raw (of_nullable (get (url req) ''receiver''))) = Some r \<and>
           json req = Some j \<and> get_account j = Inr acc \<and> PublicKey sdk (Raw acc) = Some p) \<and>
        (is_zero (Number (get (url req) ''amount'')) \<or> Number (get (url req) ''amount'') = NaN))"
    by (auto simp: POST_tsx_def js_defs Response_new_def internal_server_error_def
        ToBoolean_object_def split: option.splits sum.splits prod.splits dest: respond_resultD)
  moreover have "PublicKey sdk (Raw (of_nullable (get (url req) ''receiver''))) = None \<Longrightarrow>
       fst (POST_tsx sdk conn req) = internal_server_error"
    by (simp add: POST_tsx_def js_defs)
  ultimately show ?thesis
    using POST by (simp add: ToBoolean_object_def)
qed

theorem C9_inline_guard_witness:
  "fst (POST_tsx strict_sdk devnet (transfer_request ''abc'')) = Response_new None 400 \<and>
   fst (POST_tsx2 strict_sdk devnet (post_request [(''amount'', ''0'')] (account_of alice))) =
     internal_server_error \<and>
   fst (POST_tsx2 strict_sdk devnet
     (post_request [(''receiver'', ''xyz''), (''amount'', ''0'')] (account_of alice))) =
     internal_server_error"
proof -
  have tsx: "POST_tsx \<in> {POST_tsx, POST_tsx2}" and tsx2: "POST_tsx2 \<in> {POST_tsx, POST_tsx2}"
    by simp_all
  note a = C9_inline_guard [OF tsx, of bob strict_sdk devnet "transfer_request ''abc''"]
  note b = C9_inline_guard [OF tsx2, of bob strict_sdk devnet
    "post_request [(''amount'', ''0'')] (account_of alice)"]
  note c = C9_inline_guard [OF tsx2, of bob strict_sdk devnet
    "post_request [(''receiver'', ''xyz''), (''amount'', ''0'')] (account_of alice)"]
  from a b c show ?thesis
    by (simp add: transfer_request_def post_request_def get_def account_of_def strict_sdk_def
        alice_key bob_key null_key short_key number_eval)
qed

subsection \<open>C10: the helper checks presence and keys only\<close>



end
